theory Spec2Isabelle
  imports Main "HOL-Library.Sublist"
begin

section \<open>md2pdf: the converter of \<^verbatim>\<open>src/md2pdf/converter.py\<close>\<close>

text \<open>
  A Python \<^verbatim>\<open>str\<close> is modelled as a \<^typ>\<open>string\<close>: one \<^typ>\<open>char\<close> stands for one code
  point, so the model covers text whose code points are below 256. The library calls the
  source makes (\<^verbatim>\<open>str\<close> methods, \<^verbatim>\<open>re.search\<close>, \<^verbatim>\<open>pathlib\<close>) are written out below with
  the behaviour the Python documentation gives them; the YAML parser, the external
  processes and the PyPDF2 package are parameters of the model.
\<close>

subsection \<open>String methods\<close>

text \<open>The characters below 256 for which \<^verbatim>\<open>str.isspace\<close> holds.\<close>

definition is_space :: "char \<Rightarrow> bool" where
  "is_space c \<longleftrightarrow> c \<in> set [CHR 0x09, CHR 0x0A, CHR 0x0B, CHR 0x0C, CHR 0x0D,
     CHR 0x1C, CHR 0x1D, CHR 0x1E, CHR 0x1F, CHR 0x20, CHR 0x85, CHR 0xA0]"

definition lstrip :: "string \<Rightarrow> string" where
  "lstrip s = dropWhile is_space s"

definition rstrip :: "string \<Rightarrow> string" where
  "rstrip s = rev (dropWhile is_space (rev s))"

definition strip :: "string \<Rightarrow> string" where
  "strip s = lstrip (rstrip s)"

text \<open>
  \<^verbatim>\<open>s.replace(old, new)\<close>: the occurrences of \<^verbatim>\<open>old\<close> are found from the left and do not
  overlap; an empty \<^verbatim>\<open>old\<close> matches before every character and at the end.
\<close>

function str_replace :: "string \<Rightarrow> string \<Rightarrow> string \<Rightarrow> string" where
  "str_replace old new [] = (if old = [] then new else [])"
| "str_replace old new (c # cs) =
     (if old = [] then new @ c # str_replace old new cs
      else if prefix old (c # cs) then new @ str_replace old new (drop (length old) (c # cs))
      else c # str_replace old new cs)"
  by pat_completeness auto
termination
  by (relation "measure (\<lambda>(old, new, s). length s)") auto

text \<open>\<^verbatim>\<open>s.partition(sep)\<close> at the first occurrence, \<^verbatim>\<open>None\<close> when there is none.\<close>

fun find_sep :: "string \<Rightarrow> string \<Rightarrow> (string \<times> string) option" where
  "find_sep sep [] = (if sep = [] then Some ([], []) else None)"
| "find_sep sep (c # cs) =
     (if prefix sep (c # cs) then Some ([], drop (length sep) (c # cs))
      else (case find_sep sep cs of
              None \<Rightarrow> None
            | Some (a, b) \<Rightarrow> Some (c # a, b)))"

text \<open>\<^verbatim>\<open>s.split(sep, maxsplit)\<close> for a non-empty separator.\<close>

fun str_split :: "string \<Rightarrow> nat \<Rightarrow> string \<Rightarrow> string list" where
  "str_split sep 0 s = [s]"
| "str_split sep (Suc n) s =
     (case find_sep sep s of
        None \<Rightarrow> [s]
      | Some (a, b) \<Rightarrow> a # str_split sep n b)"

text \<open>\<^verbatim>\<open>s.lower()\<close> on the ASCII letters and the Latin-1 letters that have a lower case.\<close>

definition lower_char :: "char \<Rightarrow> char" where
  "lower_char c =
     (let n = (of_char c :: nat)
      in if (65 \<le> n \<and> n \<le> 90) \<or> (192 \<le> n \<and> n \<le> 214) \<or> (216 \<le> n \<and> n \<le> 222)
         then char_of (n + 32) else c)"

definition lower :: "string \<Rightarrow> string" where
  "lower s = map lower_char s"

subsection \<open>Field values and the header field extractor\<close>

text \<open>
  A field value as the serializer distinguishes it: a string, a boolean, an integer, a
  float (carried as the text Python prints for it), or any other object (carried as its
  \<^verbatim>\<open>str()\<close> text: \<^verbatim>\<open>None\<close>, a list, a nested mapping, a date). A field mapping is a Python
  \<^verbatim>\<open>dict\<close> with string keys, kept in insertion order.
\<close>

datatype pyval = VStr string | VBool bool | VInt int | VFloat string | VOther string

type_synonym fields = "(string \<times> pyval) list"

text \<open>
  What \<^verbatim>\<open>yaml.safe_load\<close> can do with a text: raise \<^verbatim>\<open>yaml.YAMLError\<close>, raise another
  exception, return \<^verbatim>\<open>None\<close> (an empty or comment-only document), return a mapping, or
  return a value that is not a mapping (a scalar or a sequence).
\<close>

datatype yaml_result =
    YamlError
  | YamlOtherException string
  | YamlNone
  | YamlMapping fields
  | YamlOther pyval

datatype exn =
    CalledProcessError string
  | OtherException string

text \<open>What \<^verbatim>\<open>parse_header_fields\<close> returns: a mapping, or whatever else the parser gave.\<close>

datatype header = Mapping fields | NotMapping pyval

text \<open>Lines 34 to 47 of \<^verbatim>\<open>parse_header_fields\<close>, on the text read from the file.\<close>

definition parse_header_text :: "(string \<Rightarrow> yaml_result) \<Rightarrow> string \<Rightarrow> exn + header" where
  "parse_header_text safe_load content =
     (if prefix ''---\<newline>'' content then
        (let parts = str_split ''---'' 2 content
         in if length parts \<ge> 2 then
              (let yaml_content = strip (parts ! 1)
               in case safe_load yaml_content of
                    YamlError \<Rightarrow> Inr (Mapping [])
                  | YamlOtherException e \<Rightarrow> Inl (OtherException e)
                  | YamlNone \<Rightarrow> Inr (Mapping [])
                  | YamlMapping fs \<Rightarrow> Inr (Mapping fs)
                  | YamlOther v \<Rightarrow> Inr (NotMapping v))
            else Inr (Mapping []))
      else Inr (Mapping []))"

subsection \<open>Placeholder substitution\<close>

text \<open>Lines 87 to 90: the header block is removed when the split gives three parts.\<close>

definition remove_frontmatter :: "string \<Rightarrow> string" where
  "remove_frontmatter content =
     (if prefix ''---\<newline>'' content then
        (let parts = str_split ''---'' 2 content
         in if length parts \<ge> 3 then lstrip (parts ! 2) else content)
      else content)"

definition placeholder :: "string \<Rightarrow> string" where
  "placeholder key = ''{{'' @ key @ ''}}''"

text \<open>Lines 93 to 96: one \<^verbatim>\<open>replace\<close> for every string-valued field, in the mapping's order.\<close>

fun substitute_placeholders :: "fields \<Rightarrow> string \<Rightarrow> string" where
  "substitute_placeholders [] content = content"
| "substitute_placeholders ((key, VStr v) # fs) content =
     substitute_placeholders fs (str_replace (placeholder key) v content)"
| "substitute_placeholders ((key, _) # fs) content = substitute_placeholders fs content"

text \<open>\<^verbatim>\<open>old\<close> occurs somewhere in the text.\<close>

fun occurs :: "string \<Rightarrow> string \<Rightarrow> bool" where
  "occurs old [] = (old = [])"
| "occurs old (c # cs) = (prefix old (c # cs) \<or> occurs old cs)"

subsection \<open>Entry-point detection\<close>

text \<open>
  The characters below 256 that \<^verbatim>\<open>\w\<close> matches in a \<^verbatim>\<open>str\<close> pattern (alphanumeric or the
  underscore), and the class \<^verbatim>\<open>[\w-]\<close> of the pattern.
\<close>

definition is_word :: "char \<Rightarrow> bool" where
  "is_word c =
     (let n = (of_char c :: nat)
      in (48 \<le> n \<and> n \<le> 57) \<or> (65 \<le> n \<and> n \<le> 90) \<or> n = 95 \<or> (97 \<le> n \<and> n \<le> 122)
         \<or> n = 170 \<or> n = 178 \<or> n = 179 \<or> n = 181 \<or> n = 185 \<or> n = 186
         \<or> (188 \<le> n \<and> n \<le> 190) \<or> (192 \<le> n \<and> n \<le> 214) \<or> (216 \<le> n \<and> n \<le> 246)
         \<or> 248 \<le> n)"

definition is_name_char :: "char \<Rightarrow> bool" where
  "is_name_char c \<longleftrightarrow> is_word c \<or> c = CHR ''-''"

text \<open>
  The pattern \<^verbatim>\<open>#let\s+([\w-]+)\s*\(\<close> matched at the start of a text; the result is group 1.
  The three repetitions are greedy, and since no character is both a space and a name
  character, and the parenthesis is neither, giving characters back never helps: the
  longest runs decide the match.
\<close>

definition match_let :: "string \<Rightarrow> string option" where
  "match_let s =
     (if prefix ''#let'' s then
        (let r1 = drop 4 s;
             spaces = takeWhile is_space r1;
             r2 = dropWhile is_space r1;
             name = takeWhile is_name_char r2;
             r3 = dropWhile is_space (dropWhile is_name_char r2)
         in if spaces \<noteq> [] \<and> name \<noteq> [] \<and> prefix ''('' r3 then Some name else None)
      else None)"

text \<open>\<^verbatim>\<open>re.search\<close>: the match at the leftmost position that has one.\<close>

fun search_let :: "string \<Rightarrow> string option" where
  "search_let [] = match_let []"
| "search_let (c # cs) =
     (case match_let (c # cs) of
        Some name \<Rightarrow> Some name
      | None \<Rightarrow> search_let cs)"

text \<open>Lines 138 to 142.\<close>

definition template_func :: "string \<Rightarrow> string" where
  "template_func template_content =
     (case search_let template_content of
        Some name \<Rightarrow> name
      | None \<Rightarrow> ''report'')"

subsection \<open>Template parameter serializer\<close>

text \<open>\<^verbatim>\<open>str(n)\<close> of an integer.\<close>

fun digits :: "nat \<Rightarrow> string" where
  "digits n = (if n < 10 then [char_of (48 + n)] else digits (n div 10) @ [char_of (48 + n mod 10)])"

declare digits.simps [simp del]

definition str_int :: "int \<Rightarrow> string" where
  "str_int i = (if i < 0 then CHR ''-'' # digits (nat (- i)) else digits (nat i))"

definition normalize_key :: "string \<Rightarrow> string" where
  "normalize_key key = lower (str_replace ''-'' ''_'' (str_replace '' '' ''_'' key))"

definition escape_short :: "string \<Rightarrow> string" where
  "escape_short v = str_replace [CHR 0x22] [CHR 0x5C, CHR 0x22] (str_replace [CHR 0x5C] [CHR 0x5C, CHR 0x5C] v)"

definition escape_other :: "string \<Rightarrow> string" where
  "escape_other v = str_replace ''\<newline>'' [CHR 0x5C, CHR ''n''] (escape_short v)"

text \<open>Lines 155 to 172: the text of the parameter line of one field.\<close>

fun format_param :: "string \<Rightarrow> pyval \<Rightarrow> string" where
  "format_param normalized_key (VStr v) =
     (if CHR ''\<newline>'' \<in> set v \<or> length v > 100
      then ''  '' @ normalized_key @ '': ['' @ strip v @ ''],''
      else ''  '' @ normalized_key @ '': '' @ [CHR 0x22] @ escape_short v @ [CHR 0x22] @ '','')"
| "format_param normalized_key (VBool b) =
     ''  '' @ normalized_key @ '': '' @ (if b then ''true'' else ''false'') @ '',''"
| "format_param normalized_key (VInt i) = ''  '' @ normalized_key @ '': '' @ str_int i @ '',''"
| "format_param normalized_key (VFloat r) = ''  '' @ normalized_key @ '': '' @ r @ '',''"
| "format_param normalized_key (VOther s) =
     ''  '' @ normalized_key @ '': '' @ [CHR 0x22] @ escape_other s @ [CHR 0x22] @ '',''"

text \<open>Lines 145 to 172: the loop that builds \<^verbatim>\<open>params\<close>; the \<^verbatim>\<open>template\<close> field is skipped.\<close>

fun build_params :: "fields \<Rightarrow> string list" where
  "build_params [] = []"
| "build_params ((key, v) # fs) =
     (if key = ''template'' then build_params fs
      else format_param (normalize_key key) v # build_params fs)"

text \<open>\<^verbatim>\<open>'\n'.join(params)\<close>.\<close>

fun join_lines :: "string list \<Rightarrow> string" where
  "join_lines [] = []"
| "join_lines [l] = l"
| "join_lines (l # ls) = l @ ''\<newline>'' @ join_lines ls"

subsection \<open>Paths\<close>

text \<open>
  A \<^verbatim>\<open>pathlib\<close> path is its directory text and its final component. The functions follow
  \<^verbatim>\<open>PurePath\<close>: the suffix of a name starts at its last dot, unless that dot is the first
  or the last character.
\<close>

datatype path = Path (parent: string) (name: string)

definition path_suffix :: "string \<Rightarrow> string" where
  "path_suffix nm =
     (let ext = rev (takeWhile (\<lambda>c. c \<noteq> CHR ''.'') (rev nm))
      in if CHR ''.'' \<in> set nm \<and> ext \<noteq> [] \<and> length ext + 1 < length nm
         then CHR ''.'' # ext else [])"

definition stem :: "path \<Rightarrow> string" where
  "stem p = take (length (name p) - length (path_suffix (name p))) (name p)"

text \<open>\<^verbatim>\<open>with_suffix\<close> raises \<^verbatim>\<open>ValueError\<close> on an empty name; the caller checks that first.\<close>

definition with_suffix :: "path \<Rightarrow> string \<Rightarrow> path" where
  "with_suffix p sfx = Path (parent p) (stem p @ sfx)"

definition path_str :: "path \<Rightarrow> string" where
  "path_str p =
     (if parent p = [] \<or> parent p = ''.'' then name p
      else if parent p = ''/'' then ''/'' @ name p
      else parent p @ ''/'' @ name p)"

subsection \<open>The world: files, processes, printed lines\<close>

datatype proc_result = CommandNotFound | Exited int string

text \<open>One \<^verbatim>\<open>subprocess.run\<close>: its arguments, how it ended, and the files it left.\<close>

record call =
  argv :: "string list"
  result :: proc_result
  files_after :: "path \<rightharpoonup> string"

text \<open>Each constructor is one \<^verbatim>\<open>print\<close> of the source.\<close>

datatype msg =
    ConvertingToTypst string
  | ConvertingToPdf
  | SuccessfullyCreated path
  | ErrorDuringConversion
  | ToolStderr string
  | TemporaryFileSaved path
  | Error string
  | CsvFileEmpty
  | ProcessingRows nat
  | FailedRow nat
  | MergingPdfs nat path
  | NoMergeTool
  | TemporaryPdfsSaved string
  | MergedCreated path
  | FailedToGenerate path
  | Generated path

text \<open>
  The files are kept under their resolved paths: two spellings of one file (a relative
  and an absolute path, a symbolic link) are one entry, and every file operation first
  resolves the path it is given. A file is the text it holds, as stored: every file is
  taken to be valid UTF-8.
\<close>

record world =
  files :: "path \<rightharpoonup> string"
  calls :: "call list"
  out :: "msg list"
  err :: "msg list"

text \<open>
  What the program cannot decide: the YAML parser, which file a path denotes, what an
  external command does to the files and how it exits, which files can be opened for
  writing, and the PyPDF2 merger (\<open>None\<close> when the package cannot be imported).
\<close>

record env =
  safe_load :: "string \<Rightarrow> yaml_result"
  realpath :: "path \<Rightarrow> path"
  run :: "string list \<Rightarrow> (path \<rightharpoonup> string) \<Rightarrow> proc_result \<times> (path \<rightharpoonup> string)"
  can_write :: "path \<Rightarrow> bool"
  pdf_merger ::
    "(path list \<Rightarrow> path \<Rightarrow> (path \<rightharpoonup> string) \<Rightarrow> exn option \<times> (path \<rightharpoonup> string)) option"

definition failed :: "proc_result \<Rightarrow> bool" where
  "failed r = (case r of CommandNotFound \<Rightarrow> False | Exited rc _ \<Rightarrow> rc \<noteq> 0)"

text \<open>\<^verbatim>\<open>subprocess.run(argv, capture_output=True, text=True)\<close>; a missing command changes no file.\<close>

definition subprocess_run :: "env \<Rightarrow> string list \<Rightarrow> world \<Rightarrow> proc_result \<times> world" where
  "subprocess_run e args w =
     (case run e args (files w) of
        (CommandNotFound, _) \<Rightarrow>
          (CommandNotFound,
           w\<lparr>calls := calls w @ [\<lparr>argv = args, result = CommandNotFound, files_after = files w\<rparr>]\<rparr>)
      | (Exited rc diag, fs) \<Rightarrow>
          (Exited rc diag,
           w\<lparr>files := fs,
             calls := calls w @ [\<lparr>argv = args, result = Exited rc diag, files_after = fs\<rparr>]\<rparr>))"

text \<open>The same with \<^verbatim>\<open>check=True\<close>.\<close>

definition subprocess_run_checked :: "env \<Rightarrow> string list \<Rightarrow> world \<Rightarrow> (exn + unit) \<times> world" where
  "subprocess_run_checked e args w =
     (case subprocess_run e args w of
        (CommandNotFound, w') \<Rightarrow> (Inl (OtherException ''FileNotFoundError''), w')
      | (Exited rc diag, w') \<Rightarrow>
          if rc \<noteq> 0 then (Inl (CalledProcessError diag), w') else (Inr (), w'))"

text \<open>
  A file opened with \<^verbatim>\<open>open(p, 'r')\<close> is read with universal newlines: \<^verbatim>\<open>\r\n\<close> and a lone
  \<^verbatim>\<open>\r\<close> arrive as \<^verbatim>\<open>\n\<close>.
\<close>

fun universal_newlines :: "string \<Rightarrow> string" where
  "universal_newlines [] = []"
| "universal_newlines [c] = [if c = CHR 0x0D then CHR 0x0A else c]"
| "universal_newlines (c # d # cs) =
     (if c = CHR 0x0D \<and> d = CHR 0x0A then CHR 0x0A # universal_newlines cs
      else if c = CHR 0x0D then CHR 0x0A # universal_newlines (d # cs)
      else c # universal_newlines (d # cs))"

text \<open>\<^verbatim>\<open>p.exists()\<close>.\<close>

definition path_exists :: "env \<Rightarrow> path \<Rightarrow> world \<Rightarrow> bool" where
  "path_exists e p w \<longleftrightarrow> files w (realpath e p) \<noteq> None"

text \<open>\<^verbatim>\<open>with open(p, 'r', encoding='utf-8') as f: f.read()\<close>.\<close>

definition read_file :: "env \<Rightarrow> path \<Rightarrow> world \<Rightarrow> exn + string" where
  "read_file e p w =
     (case files w (realpath e p) of
        None \<Rightarrow> Inl (OtherException ''FileNotFoundError'')
      | Some text \<Rightarrow> Inr (universal_newlines text))"

text \<open>
  \<^verbatim>\<open>with open(p, 'w', encoding='utf-8') as f: f.write(text)\<close>, on a system whose line
  separator is \<^verbatim>\<open>\n\<close>.
\<close>

definition write_file :: "env \<Rightarrow> path \<Rightarrow> string \<Rightarrow> world \<Rightarrow> exn + world" where
  "write_file e p text w =
     (if can_write e (realpath e p) then Inr (w\<lparr>files := (files w)(realpath e p \<mapsto> text)\<rparr>)
      else Inl (OtherException ''OSError''))"

text \<open>\<^verbatim>\<open>p.unlink()\<close>.\<close>

definition unlink :: "env \<Rightarrow> path \<Rightarrow> world \<Rightarrow> exn + world" where
  "unlink e p w =
     (case files w (realpath e p) of
        None \<Rightarrow> Inl (OtherException ''FileNotFoundError'')
      | Some _ \<Rightarrow> Inr (w\<lparr>files := (files w)(realpath e p := None)\<rparr>))"

text \<open>\<^verbatim>\<open>if p.exists(): p.unlink()\<close>.\<close>

definition unlink_if_exists :: "env \<Rightarrow> path \<Rightarrow> world \<Rightarrow> world" where
  "unlink_if_exists e p w = w\<lparr>files := (files w)(realpath e p := None)\<rparr>"

text \<open>
  \<^verbatim>\<open>shutil.copy(src, dst)\<close>: the content is copied as it is stored; \<^verbatim>\<open>SameFileError\<close> when
  both paths denote one file.
\<close>

definition shutil_copy :: "env \<Rightarrow> path \<Rightarrow> path \<Rightarrow> world \<Rightarrow> exn + world" where
  "shutil_copy e src dst w =
     (case files w (realpath e src) of
        None \<Rightarrow> Inl (OtherException ''FileNotFoundError'')
      | Some text \<Rightarrow>
          if realpath e src = realpath e dst then Inl (OtherException ''SameFileError'')
          else write_file e dst text w)"

definition print_out :: "msg \<Rightarrow> world \<Rightarrow> world" where
  "print_out m w = w\<lparr>out := out w @ [m]\<rparr>"

definition print_err :: "msg \<Rightarrow> world \<Rightarrow> world" where
  "print_err m w = w\<lparr>err := err w @ [m]\<rparr>"

subsection \<open>The single-document conversion\<close>

text \<open>\<^verbatim>\<open>d[k] = v\<close> and \<^verbatim>\<open>d.update(other)\<close> on an insertion-ordered \<^verbatim>\<open>dict\<close>.\<close>

fun dict_set :: "fields \<Rightarrow> string \<Rightarrow> pyval \<Rightarrow> fields" where
  "dict_set [] k v = [(k, v)]"
| "dict_set ((k', v') # d) k v = (if k' = k then (k, v) # d else (k', v') # dict_set d k v)"

definition dict_update :: "fields \<Rightarrow> fields \<Rightarrow> fields" where
  "dict_update d other = foldl (\<lambda>acc (k, v). dict_set acc k v) d other"

record job =
  markdown_file :: path
  output_pdf :: path
  template_file :: path
  override_fields :: "fields option"
  bibliography :: "path option"
  csl :: "path option"

definition temp_typst :: "job \<Rightarrow> path" where
  "temp_typst j = with_suffix (output_pdf j) ''.typ''"

definition temp_md :: "job \<Rightarrow> path" where
  "temp_md j = with_suffix (output_pdf j) ''.temp.md''"

definition temp_template :: "job \<Rightarrow> path" where
  "temp_template j = Path (parent (temp_typst j)) (name (template_file j))"

text \<open>\<^verbatim>\<open>parse_header_fields\<close>: the file is read, then lines 34 to 47.\<close>

definition parse_header_fields :: "env \<Rightarrow> path \<Rightarrow> world \<Rightarrow> exn + header" where
  "parse_header_fields e p w =
     (case read_file e p w of
        Inl x \<Rightarrow> Inl x
      | Inr content \<Rightarrow> parse_header_text (safe_load e) content)"

text \<open>
  Lines 75 to 79. An empty or absent override is skipped; \<^verbatim>\<open>update\<close> on a value that is
  not a mapping raises \<^verbatim>\<open>AttributeError\<close>.
\<close>

definition load_fields :: "env \<Rightarrow> job \<Rightarrow> world \<Rightarrow> exn + header" where
  "load_fields e j w =
     (case parse_header_fields e (markdown_file j) w of
        Inl x \<Rightarrow> Inl x
      | Inr hdr \<Rightarrow>
          (case override_fields j of
             None \<Rightarrow> Inr hdr
           | Some ov \<Rightarrow>
               if ov = [] then Inr hdr
               else (case hdr of
                       Mapping fs \<Rightarrow> Inr (Mapping (dict_update fs ov))
                     | NotMapping _ \<Rightarrow> Inl (OtherException ''AttributeError''))))"

definition pandoc_cmd :: "job \<Rightarrow> string list" where
  "pandoc_cmd j =
     [''pandoc'', path_str (temp_md j), ''-t'', ''typst'', ''-o'', path_str (temp_typst j)]
     @ (case bibliography j of
          None \<Rightarrow> []
        | Some bib \<Rightarrow>
            (case csl j of None \<Rightarrow> [] | Some style \<Rightarrow> [''--csl'', path_str style])
            @ [''--citeproc'', ''--bibliography'', path_str bib])"

definition typst_cmd :: "job \<Rightarrow> string list" where
  "typst_cmd j = [''typst'', ''compile'', path_str (temp_typst j), path_str (output_pdf j)]"

text \<open>
  Lines 82 to 125, where \<^verbatim>\<open>temp_md\<close> is bound and \<^verbatim>\<open>temp_template\<close> is not yet: the body is
  substituted and written, pandoc runs, its output is read and the substituted file is
  removed. \<^verbatim>\<open>fields.items()\<close> raises \<^verbatim>\<open>AttributeError\<close> on a value that is not a mapping.
\<close>

definition markup_stage :: "env \<Rightarrow> job \<Rightarrow> header \<Rightarrow> world \<Rightarrow> (exn + fields \<times> string) \<times> world" where
  "markup_stage e j hdr w =
     (case read_file e (markdown_file j) w of
        Inl x \<Rightarrow> (Inl x, w)
      | Inr content \<Rightarrow>
          (case hdr of
             NotMapping _ \<Rightarrow> (Inl (OtherException ''AttributeError''), w)
           | Mapping fs \<Rightarrow>
               (case write_file e (temp_md j)
                       (substitute_placeholders fs (remove_frontmatter content)) w of
                  Inl x \<Rightarrow> (Inl x, w)
                | Inr w1 \<Rightarrow>
                    (case subprocess_run_checked e (pandoc_cmd j)
                            (print_out (ConvertingToTypst (name (markdown_file j))) w1) of
                       (Inl x, w2) \<Rightarrow> (Inl x, w2)
                     | (Inr _, w2) \<Rightarrow>
                         (case read_file e (temp_typst j) w2 of
                            Inl x \<Rightarrow> (Inl x, w2)
                          | Inr typst_body \<Rightarrow>
                              (case unlink e (temp_md j) w2 of
                                 Inl x \<Rightarrow> (Inl x, w2)
                               | Inr w3 \<Rightarrow> (Inr (fs, typst_body), w3)))))))"

text \<open>Lines 177 to 184: the assembled document.\<close>

definition typst_content :: "string \<Rightarrow> string \<Rightarrow> string \<Rightarrow> string \<Rightarrow> string" where
  "typst_content template_name func params_str typst_body =
     ''#import '' @ [CHR 0x22] @ template_name @ [CHR 0x22] @ '': *\<newline>\<newline>#show: '' @ func
     @ ''.with(\<newline>'' @ params_str @ ''\<newline>)\<newline>\<newline>'' @ typst_body @ ''\<newline>''"

text \<open>
  Lines 130 to 204, where \<^verbatim>\<open>temp_template\<close> is bound: the template is copied beside the
  markup file and read, the document is assembled and written, typst runs, and the markup
  file and the copied template are removed.
\<close>

definition pdf_stage :: "env \<Rightarrow> job \<Rightarrow> fields \<Rightarrow> string \<Rightarrow> world \<Rightarrow> (exn + unit) \<times> world" where
  "pdf_stage e j fs typst_body w =
     (case shutil_copy e (template_file j) (temp_template j) w of
        Inl x \<Rightarrow> (Inl x, w)
      | Inr w1 \<Rightarrow>
          (case read_file e (temp_template j) w1 of
             Inl x \<Rightarrow> (Inl x, w1)
           | Inr template_content \<Rightarrow>
               (case write_file e (temp_typst j)
                       (typst_content (name (temp_template j)) (template_func template_content)
                          (join_lines (build_params fs)) typst_body) w1 of
                  Inl x \<Rightarrow> (Inl x, w1)
                | Inr w2 \<Rightarrow>
                    (case subprocess_run_checked e (typst_cmd j) (print_out ConvertingToPdf w2) of
                       (Inl x, w3) \<Rightarrow> (Inl x, w3)
                     | (Inr _, w3) \<Rightarrow>
                         (case unlink e (temp_typst j) w3 of
                            Inl x \<Rightarrow> (Inl x, w3)
                          | Inr w4 \<Rightarrow>
                              (Inr (),
                               print_out (SuccessfullyCreated (output_pdf j))
                                 (unlink_if_exists e (temp_template j) w4)))))))"

text \<open>
  Lines 206 to 220: the two handlers. The flags say whether \<^verbatim>\<open>temp_md\<close> and
  \<^verbatim>\<open>temp_template\<close> were bound when the exception was raised.
\<close>

definition handle_exception :: "env \<Rightarrow> job \<Rightarrow> bool \<Rightarrow> bool \<Rightarrow> exn \<Rightarrow> world \<Rightarrow> world" where
  "handle_exception e j md_bound template_bound x w =
     (case x of
        CalledProcessError diag \<Rightarrow>
          (let w1 = print_err (ToolStderr diag) (print_err ErrorDuringConversion w)
           in if path_exists e (temp_typst j) w1
              then print_err (TemporaryFileSaved (temp_typst j)) w1 else w1)
      | OtherException text \<Rightarrow>
          (let w1 = unlink_if_exists e (temp_typst j) (print_err (Error text) w);
               w2 = (if template_bound then unlink_if_exists e (temp_template j) w1 else w1)
           in if md_bound then unlink_if_exists e (temp_md j) w2 else w2))"

text \<open>
  \<^verbatim>\<open>convert_markdown_to_pdf\<close>. Line 71 is outside the \<^verbatim>\<open>try\<close>: its \<^verbatim>\<open>ValueError\<close> on an output
  path with an empty name reaches the caller. Everything else returns a boolean.
\<close>

definition convert_markdown_to_pdf :: "env \<Rightarrow> job \<Rightarrow> world \<Rightarrow> (exn + bool) \<times> world" where
  "convert_markdown_to_pdf e j w =
     (if name (output_pdf j) = [] then (Inl (OtherException ''ValueError''), w)
      else (case load_fields e j w of
              Inl x \<Rightarrow> (Inr False, handle_exception e j False False x w)
            | Inr hdr \<Rightarrow>
                (case markup_stage e j hdr w of
                   (Inl x, w1) \<Rightarrow> (Inr False, handle_exception e j True False x w1)
                 | (Inr (fs, typst_body), w1) \<Rightarrow>
                     (case pdf_stage e j fs typst_body w1 of
                        (Inl x, w2) \<Rightarrow> (Inr False, handle_exception e j True True x w2)
                      | (Inr _, w2) \<Rightarrow> (Inr True, w2)))))"

subsection \<open>The batch driver\<close>

text \<open>
  The part of \<^verbatim>\<open>main\<close> that handles the rows of the CSV file, lines 332 to 418. A row is
  what \<^verbatim>\<open>csv.DictReader\<close> makes of a line with no more cells than the header: the column
  names, in order, each with the text of its cell, or with \<^verbatim>\<open>None\<close> when the line is too
  short to have that cell. In the \<^verbatim>\<open>dict\<close> a column name that occurs twice keeps its last
  cell. The status is the exit status of the process; an exception nothing catches ends
  the process with status 1.
\<close>

type_synonym row = "(string \<times> string option) list"

text \<open>\<^verbatim>\<open>key in row\<close> and \<^verbatim>\<open>row[key]\<close>: \<open>None\<close> when the key is absent.\<close>

definition row_get :: "row \<Rightarrow> string \<Rightarrow> string option option" where
  "row_get r key = map_of (rev r) key"

text \<open>The row as override fields; \<^verbatim>\<open>str(None)\<close> is \<^verbatim>\<open>None\<close>.\<close>

definition cell_value :: "string option \<Rightarrow> pyval" where
  "cell_value cell = (case cell of Some text \<Rightarrow> VStr text | None \<Rightarrow> VOther ''None'')"

definition row_fields :: "row \<Rightarrow> fields" where
  "row_fields r = map (\<lambda>(k, cell). (k, cell_value cell)) r"

text \<open>Line 342.\<close>

definition temp_pdf :: "job \<Rightarrow> nat \<Rightarrow> path" where
  "temp_pdf j i =
     Path (parent (output_pdf j)) (stem (output_pdf j) @ ''_temp_'' @ str_int (int i) @ ''.pdf'')"

definition merge_job :: "job \<Rightarrow> nat \<Rightarrow> row \<Rightarrow> job" where
  "merge_job j i r = j\<lparr>output_pdf := temp_pdf j i, override_fields := Some (row_fields r)\<rparr>"

text \<open>Lines 341 to 354: the loop of merge mode, from row \<open>i\<close> on.\<close>

fun merge_rows :: "env \<Rightarrow> job \<Rightarrow> nat \<Rightarrow> row list \<Rightarrow> path list \<Rightarrow> world \<Rightarrow> (nat + path list) \<times> world" where
  "merge_rows e j i [] temp_pdfs w = (Inr temp_pdfs, w)"
| "merge_rows e j i (r # rs) temp_pdfs w =
     (case convert_markdown_to_pdf e (merge_job j i r) w of
        (Inl x, w1) \<Rightarrow> (Inl 1, w1)
      | (Inr success, w1) \<Rightarrow>
          if \<not> success then (Inl 1, print_err (FailedRow (i + 1)) w1)
          else merge_rows e j (Suc i) rs (temp_pdfs @ [temp_pdf j i]) w1)"

text \<open>Lines 388 to 391: the temporary PDFs are removed in order.\<close>

fun unlink_all :: "env \<Rightarrow> path list \<Rightarrow> world \<Rightarrow> exn option \<times> world" where
  "unlink_all e [] w = (None, w)"
| "unlink_all e (p # ps) w =
     (case unlink e p w of
        Inl x \<Rightarrow> (Some x, w)
      | Inr w1 \<Rightarrow> unlink_all e ps w1)"

definition finish_merge :: "env \<Rightarrow> job \<Rightarrow> path list \<Rightarrow> world \<Rightarrow> nat \<times> world" where
  "finish_merge e j temp_pdfs w =
     (case unlink_all e temp_pdfs w of
        (Some x, w1) \<Rightarrow> (1, w1)
      | (None, w1) \<Rightarrow> (0, print_out (MergedCreated (output_pdf j)) w1))"

text \<open>Lines 375 to 385: the PyPDF2 fallback.\<close>

definition pypdf2_merge :: "env \<Rightarrow> job \<Rightarrow> path list \<Rightarrow> world \<Rightarrow> nat \<times> world" where
  "pypdf2_merge e j temp_pdfs w =
     (case pdf_merger e of
        None \<Rightarrow> (1, print_err (TemporaryPdfsSaved (stem (output_pdf j))) (print_err NoMergeTool w))
      | Some merger \<Rightarrow>
          (case merger temp_pdfs (output_pdf j) (files w) of
             (Some x, fs) \<Rightarrow> (1, w\<lparr>files := fs\<rparr>)
           | (None, fs) \<Rightarrow> finish_merge e j temp_pdfs (w\<lparr>files := fs\<rparr>)))"

definition pdfunite_cmd :: "job \<Rightarrow> path list \<Rightarrow> string list" where
  "pdfunite_cmd j temp_pdfs = ''pdfunite'' # map path_str temp_pdfs @ [path_str (output_pdf j)]"

definition pdftk_cmd :: "job \<Rightarrow> path list \<Rightarrow> string list" where
  "pdftk_cmd j temp_pdfs =
     ''pdftk'' # map path_str temp_pdfs @ [''cat'', ''output'', path_str (output_pdf j)]"

text \<open>Lines 357 to 391: pdfunite, then pdftk, then PyPDF2.\<close>

definition merge_pdfs :: "env \<Rightarrow> job \<Rightarrow> path list \<Rightarrow> world \<Rightarrow> nat \<times> world" where
  "merge_pdfs e j temp_pdfs w =
     (case subprocess_run e (pdfunite_cmd j temp_pdfs)
             (print_out (MergingPdfs (length temp_pdfs) (output_pdf j)) w) of
        (CommandNotFound, w1) \<Rightarrow> pypdf2_merge e j temp_pdfs w1
      | (Exited rc _, w1) \<Rightarrow>
          if rc \<noteq> 0 then
            (case subprocess_run_checked e (pdftk_cmd j temp_pdfs) w1 of
               (Inl x, w2) \<Rightarrow> pypdf2_merge e j temp_pdfs w2
             | (Inr _, w2) \<Rightarrow> finish_merge e j temp_pdfs w2)
          else finish_merge e j temp_pdfs w1)"

definition merge_mode :: "env \<Rightarrow> job \<Rightarrow> row list \<Rightarrow> world \<Rightarrow> nat \<times> world" where
  "merge_mode e j rows w =
     (case merge_rows e j 0 rows [] w of
        (Inl status, w1) \<Rightarrow> (status, w1)
      | (Inr temp_pdfs, w1) \<Rightarrow> merge_pdfs e j temp_pdfs w1)"

text \<open>
  Lines 399 to 403: the path of the output of row \<open>i\<close> (counted from 0). On a row whose
  recipient is \<^verbatim>\<open>None\<close>, \<^verbatim>\<open>row['recipient'].replace\<close> raises \<^verbatim>\<open>AttributeError\<close>.
\<close>

definition safe_name :: "string \<Rightarrow> string" where
  "safe_name recipient = str_replace ''/'' ''_'' (str_replace '' '' ''_'' recipient)"

definition row_output :: "job \<Rightarrow> nat \<Rightarrow> row \<Rightarrow> exn + path" where
  "row_output j i r =
     (case row_get r ''recipient'' of
        Some (Some recipient) \<Rightarrow>
          Inr (Path (parent (output_pdf j))
                 (stem (output_pdf j) @ ''_'' @ safe_name recipient @ ''.pdf''))
      | Some None \<Rightarrow> Inl (OtherException ''AttributeError'')
      | None \<Rightarrow>
          Inr (Path (parent (output_pdf j))
                 (stem (output_pdf j) @ ''_'' @ str_int (int i + 1) @ ''.pdf'')))"

definition row_job :: "job \<Rightarrow> path \<Rightarrow> row \<Rightarrow> job" where
  "row_job j p r = j\<lparr>output_pdf := p, override_fields := Some (row_fields r)\<rparr>"

text \<open>Lines 405 to 416: one row of per-row mode, after its conversion returned.\<close>

definition report_row :: "path \<Rightarrow> bool \<Rightarrow> world \<Rightarrow> world" where
  "report_row p success w =
     (if \<not> success then print_err (FailedToGenerate p) w else print_out (Generated p) w)"

text \<open>
  Lines 397 to 416: the loop of per-row mode, from row \<open>i\<close> on. Nothing catches an
  exception raised while a row is named or by the call of the conversion: the loop ends.
\<close>

fun per_row_loop :: "env \<Rightarrow> job \<Rightarrow> nat \<Rightarrow> row list \<Rightarrow> world \<Rightarrow> exn option \<times> world" where
  "per_row_loop e j i [] w = (None, w)"
| "per_row_loop e j i (r # rs) w =
     (case row_output j i r of
        Inl x \<Rightarrow> (Some x, w)
      | Inr p \<Rightarrow>
          (case convert_markdown_to_pdf e (row_job j p r) w of
             (Inl x, w1) \<Rightarrow> (Some x, w1)
           | (Inr success, w1) \<Rightarrow> per_row_loop e j (Suc i) rs (report_row p success w1)))"

definition per_row_mode :: "env \<Rightarrow> job \<Rightarrow> row list \<Rightarrow> world \<Rightarrow> nat \<times> world" where
  "per_row_mode e j rows w =
     (case per_row_loop e j 0 rows w of
        (Some x, w1) \<Rightarrow> (1, w1)
      | (None, w1) \<Rightarrow> (0, w1))"

text \<open>Lines 332 to 418.\<close>

definition main_csv :: "env \<Rightarrow> job \<Rightarrow> bool \<Rightarrow> row list \<Rightarrow> world \<Rightarrow> nat \<times> world" where
  "main_csv e j merge_output rows w =
     (if rows = [] then (1, print_err CsvFileEmpty w)
      else if merge_output then merge_mode e j rows (print_out (ProcessingRows (length rows)) w)
      else per_row_mode e j rows (print_out (ProcessingRows (length rows)) w))"

subsection \<open>Notions used in the statements\<close>

text \<open>
  A document body cut into pieces: plain text and placeholders \<^verbatim>\<open>{{name}}\<close>. A piece is
  clean when its text holds no opening brace, or its name no brace at all; a body that is
  a sequence of clean pieces is one in which every opening brace belongs to a placeholder
  with a brace-free name.
\<close>

datatype piece = Text string | Placeholder string

fun render :: "piece list \<Rightarrow> string" where
  "render [] = []"
| "render (Text t # ps) = t @ render ps"
| "render (Placeholder n # ps) = placeholder n @ render ps"

fun clean :: "piece \<Rightarrow> bool" where
  "clean (Text t) \<longleftrightarrow> CHR ''{'' \<notin> set t"
| "clean (Placeholder n) \<longleftrightarrow> CHR ''{'' \<notin> set n \<and> CHR ''}'' \<notin> set n"

text \<open>
  Filling in one field on the pieces: a placeholder of that name becomes the value, as
  text; and one substitution pass on the pieces, field by field.
\<close>

fun fill :: "string \<Rightarrow> string \<Rightarrow> piece \<Rightarrow> piece" where
  "fill k v (Placeholder n) = (if n = k then Text v else Placeholder n)"
| "fill k v (Text t) = Text t"

fun fill_all :: "fields \<Rightarrow> piece list \<Rightarrow> piece list" where
  "fill_all [] ps = ps"
| "fill_all ((key, VStr v) # fs) ps = fill_all fs (map (fill key v) ps)"
| "fill_all ((key, _) # fs) ps = fill_all fs ps"

text \<open>The names of the placeholders among the pieces.\<close>

fun names :: "piece list \<Rightarrow> string set" where
  "names [] = {}"
| "names (Text t # ps) = names ps"
| "names (Placeholder n # ps) = insert n (names ps)"

text \<open>
  A mapping is plain when no key of a string-valued field holds a closing brace and no
  string value an opening brace.
\<close>

definition plain_fields :: "fields \<Rightarrow> bool" where
  "plain_fields fs \<longleftrightarrow>
     (\<forall>(k, v) \<in> set fs. \<forall>s. v = VStr s \<longrightarrow> CHR ''}'' \<notin> set k \<and> CHR ''{'' \<notin> set s)"

text \<open>A text is \<^verbatim>\<open>{{...}}\<close>-shaped when a \<^verbatim>\<open>}}\<close> follows a \<^verbatim>\<open>{{\<close>.\<close>

definition placeholder_shaped :: "string \<Rightarrow> bool" where
  "placeholder_shaped v =
     (case find_sep ''{{'' v of None \<Rightarrow> False | Some (a, b) \<Rightarrow> occurs ''}}'' b)"

text \<open>The calls made between two worlds.\<close>

definition new_calls :: "world \<Rightarrow> world \<Rightarrow> call list" where
  "new_calls w w' = drop (length (calls w)) (calls w')"

text \<open>A command that, whatever the files are, changes no file but its target.\<close>

definition writes_only :: "env \<Rightarrow> string list \<Rightarrow> path \<Rightarrow> bool" where
  "writes_only e args target \<longleftrightarrow> (\<forall>fs q. q \<noteq> target \<longrightarrow> snd (run e args fs) q = fs q)"

text \<open>The three intermediate files of a conversion, as the files they denote.\<close>

definition artifacts :: "env \<Rightarrow> job \<Rightarrow> path list" where
  "artifacts e j = [realpath e (temp_md j), realpath e (temp_typst j), realpath e (temp_template j)]"

text \<open>The reports of per-row mode among the printed lines.\<close>

fun is_generated :: "msg \<Rightarrow> bool" where
  "is_generated (Generated p) = True"
| "is_generated m = False"

fun is_failed_to_generate :: "msg \<Rightarrow> bool" where
  "is_failed_to_generate (FailedToGenerate p) = True"
| "is_failed_to_generate m = False"

text \<open>How many rows have been reported, as generated or as failed.\<close>

definition reports :: "world \<Rightarrow> nat" where
  "reports w = length (filter is_generated (out w)) + length (filter is_failed_to_generate (err w))"

subsection \<open>Sample inputs\<close>

text \<open>
  A parser that answers as PyYAML does on the three header texts used below, and the job
  \<^verbatim>\<open>md2pdf doc.md -o out.pdf -t tpl/letter.typ\<close>.
\<close>

definition sample_safe_load :: "string \<Rightarrow> yaml_result" where
  "sample_safe_load s =
     (if s = ''title: X'' then YamlMapping [(''title'', VStr ''X'')]
      else if s = [] \<or> s = ''# nothing'' then YamlNone
      else YamlError)"

definition sample_job :: job where
  "sample_job =
     \<lparr>markdown_file = Path ''.'' ''doc.md'', output_pdf = Path ''.'' ''out.pdf'',
      template_file = Path ''tpl'' ''letter.typ'', override_fields = None,
      bibliography = None, csl = None\<rparr>"

text \<open>
  A working directory with the document and the template, and tools that behave: pandoc
  writes the file named after \<^verbatim>\<open>-o\<close> and typst the file named last, both in the working
  directory. On the inputs listed in \<open>bad\<close> pandoc leaves a partial output and exits with
  status 1. No merge tool is installed.
\<close>

definition sample_world :: world where
  "sample_world =
     \<lparr>files = [Path ''.'' ''doc.md'' \<mapsto> ''Dear {{recipient}}'',
               Path ''tpl'' ''letter.typ'' \<mapsto> ''#let letter(recipient: none, body) = body''],
      calls = [], out = [], err = []\<rparr>"

definition sample_env :: "string list \<Rightarrow> env" where
  "sample_env bad =
     \<lparr>safe_load = sample_safe_load,
      realpath = (\<lambda>p. p),
      run = (\<lambda>args fs.
        if take 1 args = [''pandoc''] then
          (if args ! 1 \<in> set bad
           then (Exited 1 ''pandoc: error'', fs(Path ''.'' (args ! 5) \<mapsto> ''partial''))
           else (Exited 0 [], fs(Path ''.'' (args ! 5) \<mapsto> ''Dear reader'')))
        else if take 1 args = [''typst''] then (Exited 0 [], fs(Path ''.'' (args ! 3) \<mapsto> ''%PDF''))
        else (CommandNotFound, fs)),
      can_write = (\<lambda>p. True),
      pdf_merger = None\<rparr>"

text \<open>
  The rows of a CSV file with the columns \<^verbatim>\<open>name\<close> and \<^verbatim>\<open>recipient\<close>; in the second list the
  line of Dee has one cell only.
\<close>

definition sample_rows :: "row list" where
  "sample_rows =
     [[(''name'', Some ''Ann''), (''recipient'', Some ''Ann Lee'')],
      [(''name'', Some ''Bob''), (''recipient'', Some ''Bob'')],
      [(''name'', Some ''Cy''), (''recipient'', Some ''Cy'')]]"

definition ragged_rows :: "row list" where
  "ragged_rows =
     [[(''name'', Some ''Bob''), (''recipient'', Some ''Bob'')],
      [(''name'', Some ''Dee''), (''recipient'', None)],
      [(''name'', Some ''Cy''), (''recipient'', Some ''Cy'')]]"

section \<open>Properties\<close>

subsection \<open>The header field extractor\<close>

lemma find_sep_prefix: "sep \<noteq> [] \<Longrightarrow> find_sep sep (sep @ s) = Some ([], s)"
  by (cases sep) simp_all

lemma str_split_delimited:
  "prefix ''---\<newline>'' content \<Longrightarrow> 2 \<le> length (str_split ''---'' 2 content)"
proof -
  assume "prefix ''---\<newline>'' content"
  then obtain s where c: "content = ''---'' @ (CHR ''\<newline>'' # s)"
    by (auto simp: prefix_def)
  have "find_sep ''---'' content = Some ([], CHR ''\<newline>'' # s)"
    unfolding c by (rule find_sep_prefix) simp
  then show ?thesis
    by (simp add: numeral_2_eq_2 split: option.split)
qed

text \<open>A text without the opening delimiter line gives the empty mapping.\<close>

lemma parse_header_text_no_delimiter:
  "\<not> prefix ''---\<newline>'' content \<Longrightarrow> parse_header_text y content = Inr (Mapping [])"
  by (simp add: parse_header_text_def)

text \<open>A header the parser rejects with \<^verbatim>\<open>YAMLError\<close> gives the empty mapping.\<close>

lemma parse_header_text_yaml_error:
  "y (strip (str_split ''---'' 2 content ! 1)) = YamlError \<Longrightarrow>
   parse_header_text y content = Inr (Mapping [])"
  by (simp add: parse_header_text_def Let_def)

text \<open>
  C1. The claim: the extractor returns the empty mapping when the text does not begin with
  the delimiter line, when the split gives fewer than three segments, or when the header
  does not parse. The first case, and the third when the parser raises \<^verbatim>\<open>YAMLError\<close>, are
  the two lemmas above (another exception of the parser is not caught). The second fails:
  the source tests \<^verbatim>\<open>len(parts) >= 2\<close>, which holds for every text that begins with the
  delimiter. The document \<^verbatim>\<open>---\ntitle: X\n\<close>, whose header is never closed, splits in two
  segments, and the extractor returns the mapping of the unclosed header.
\<close>

theorem parse_header_text_unterminated:
  "length (str_split ''---'' 2 ''---\<newline>title: X\<newline>'') = 2 \<and>
   parse_header_text sample_safe_load ''---\<newline>title: X\<newline>''
   = Inr (Mapping [(''title'', VStr ''X'')])"
  by (simp add: parse_header_text_def numeral_2_eq_2 strip_def lstrip_def rstrip_def
      is_space_def sample_safe_load_def)

text \<open>
  C10. For a document that begins with the delimiter line and whose header the parser
  reads as no value at all (\<^verbatim>\<open>None\<close>: an empty or comment-only header), the extractor
  returns the empty mapping, not \<^verbatim>\<open>None\<close> and not an error.
\<close>

theorem parse_header_text_empty_header:
  assumes "prefix ''---\<newline>'' content"
    and "y (strip (str_split ''---'' 2 content ! 1)) = YamlNone"
  shows "parse_header_text y content = Inr (Mapping [])"
  using assms str_split_delimited [OF assms(1)]
  by (simp add: parse_header_text_def Let_def)

theorem parse_header_text_empty_header_witness:
  "prefix ''---\<newline>'' ''---\<newline># nothing\<newline>---\<newline>Body'' \<and>
   sample_safe_load (strip (str_split ''---'' 2 ''---\<newline># nothing\<newline>---\<newline>Body'' ! 1))
     = YamlNone \<and>
   parse_header_text sample_safe_load ''---\<newline># nothing\<newline>---\<newline>Body''
     = Inr (Mapping [])"
  using parse_header_text_empty_header
    [of "''---\<newline># nothing\<newline>---\<newline>Body''" sample_safe_load]
  by (simp add: numeral_2_eq_2 strip_def lstrip_def rstrip_def is_space_def sample_safe_load_def)

subsection \<open>Placeholder substitution\<close>

text \<open>
  C7, as claimed: substitution is idempotent whenever no string value contains
  \<^verbatim>\<open>{{...}}\<close>-shaped text. It is not: with the field \<^verbatim>\<open>a\<close> of value \<^verbatim>\<open>a\<close>, which holds no
  brace at all, the body \<^verbatim>\<open>{{{{a}}}}\<close> becomes \<^verbatim>\<open>{{a}}\<close> after one pass and \<^verbatim>\<open>a\<close> after two:
  the replacement assembles a new placeholder from the text around the consumed one.
\<close>

theorem substitution_not_idempotent:
  "\<not> placeholder_shaped ''a'' \<and>
   substitute_placeholders [(''a'', VStr ''a'')] ''{{{{a}}}}'' = ''{{a}}'' \<and>
   substitute_placeholders [(''a'', VStr ''a'')]
     (substitute_placeholders [(''a'', VStr ''a'')] ''{{{{a}}}}'') = ''a''"
  by (simp add: placeholder_shaped_def placeholder_def)

text \<open>
  A condition on the body alone does not repair it. The body \<^verbatim>\<open>{{a}}{{c}}\<close> is two
  placeholders and nothing else, and neither value below is \<^verbatim>\<open>{{...}}\<close>-shaped, yet the
  two values together build the placeholder of \<^verbatim>\<open>b\<close>, which only a second pass consumes.
\<close>

lemma substitution_not_idempotent_braces_in_values:
  "\<not> placeholder_shaped ''{{b'' \<and> \<not> placeholder_shaped ''}}'' \<and>
   render [Placeholder ''a'', Placeholder ''c''] = ''{{a}}{{c}}'' \<and>
   substitute_placeholders [(''b'', VStr ''X''), (''a'', VStr ''{{b''), (''c'', VStr ''}}'')]
     ''{{a}}{{c}}'' = ''{{b}}'' \<and>
   substitute_placeholders [(''b'', VStr ''X''), (''a'', VStr ''{{b''), (''c'', VStr ''}}'')]
     ''{{b}}'' = ''X''"
  by (simp add: placeholder_shaped_def placeholder_def)

text \<open>One \<^verbatim>\<open>replace\<close> on a body of clean pieces acts piece by piece.\<close>

lemma str_replace_skip_char:
  "c \<noteq> CHR ''{'' \<Longrightarrow>
   str_replace (placeholder k) v (c # s) = c # str_replace (placeholder k) v s"
  by (simp add: placeholder_def)

lemma str_replace_skip_text:
  "CHR ''{'' \<notin> set t \<Longrightarrow>
   str_replace (placeholder k) v (t @ s) = t @ str_replace (placeholder k) v s"
proof (induction t)
  case Nil
  then show ?case by simp
next
  case (Cons a t)
  then have "a \<noteq> CHR ''{''" and "CHR ''{'' \<notin> set t" by auto
  with Cons.IH show ?case by (simp add: str_replace_skip_char del: str_replace.simps)
qed

lemma str_replace_hit:
  "str_replace (placeholder k) v (placeholder k @ s) = v @ str_replace (placeholder k) v s"
  by (simp add: placeholder_def)

lemma closing_prefix:
  assumes "prefix (k @ ''}}'') (n @ ''}}'' @ s)"
    and "CHR ''}'' \<notin> set k" and "CHR ''}'' \<notin> set n"
  shows "k = n"
  using assms
proof (induction k arbitrary: n)
  case Nil
  then show ?case by (cases n) auto
next
  case (Cons a k)
  then show ?case by (cases n) auto
qed

lemma str_replace_miss:
  assumes "n \<noteq> k" and "CHR ''}'' \<notin> set k"
    and "CHR ''{'' \<notin> set n" and "CHR ''}'' \<notin> set n"
  shows "str_replace (placeholder k) v (placeholder n @ s) =
         placeholder n @ str_replace (placeholder k) v s"
proof -
  have a: "\<not> prefix (placeholder k) (placeholder n @ s)"
    using closing_prefix [of k n s] assms by (auto simp: placeholder_def)
  have b: "\<not> prefix (placeholder k) (CHR ''{'' # n @ ''}}'' @ s)"
    using assms(3) by (cases n) (auto simp: placeholder_def)
  have c: "CHR ''{'' \<notin> set (n @ ''}}'')" using assms(3) by simp
  have "str_replace (placeholder k) v (placeholder n @ s) =
        CHR ''{'' # str_replace (placeholder k) v (CHR ''{'' # n @ ''}}'' @ s)"
    using a by (simp add: placeholder_def)
  also have "\<dots> = CHR ''{'' # CHR ''{'' # str_replace (placeholder k) v ((n @ ''}}'') @ s)"
    using b by (simp add: placeholder_def)
  also have "\<dots> = CHR ''{'' # CHR ''{'' # (n @ ''}}'') @ str_replace (placeholder k) v s"
    by (simp only: str_replace_skip_text [OF c])
  finally show ?thesis by (simp add: placeholder_def)
qed

lemma str_replace_render:
  assumes "\<forall>p \<in> set ps. clean p" and "CHR ''}'' \<notin> set k"
  shows "str_replace (placeholder k) v (render ps) = render (map (fill k v) ps)"
  using assms(1)
proof (induction ps)
  case Nil
  then show ?case by (simp add: placeholder_def)
next
  case (Cons p ps)
  then have ih: "str_replace (placeholder k) v (render ps) = render (map (fill k v) ps)" by simp
  show ?case
  proof (cases p)
    case (Text t)
    with Cons.prems have "CHR ''{'' \<notin> set t" by simp
    then show ?thesis using Text ih by (simp add: str_replace_skip_text)
  next
    case (Placeholder n)
    with Cons.prems have n: "CHR ''{'' \<notin> set n" "CHR ''}'' \<notin> set n" by simp_all
    show ?thesis
    proof (cases "n = k")
      case True
      then show ?thesis using Placeholder ih by (simp add: str_replace_hit)
    next
      case False
      then show ?thesis using Placeholder ih n assms(2) by (simp add: str_replace_miss)
    qed
  qed
qed


lemma clean_fill: "clean p \<Longrightarrow> CHR ''{'' \<notin> set v \<Longrightarrow> clean (fill k v p)"
  by (cases p) auto

lemma plain_fields_Cons_str:
  "plain_fields ((k, VStr s) # fs) \<longleftrightarrow> CHR ''}'' \<notin> set k \<and> CHR ''{'' \<notin> set s \<and> plain_fields fs"
  by (auto simp: plain_fields_def)

lemma plain_fields_Cons_other:
  "(\<And>s. v \<noteq> VStr s) \<Longrightarrow> plain_fields ((k, v) # fs) \<longleftrightarrow> plain_fields fs"
  by (auto simp: plain_fields_def)

lemma substitute_render:
  "\<forall>p \<in> set ps. clean p \<Longrightarrow> plain_fields fs \<Longrightarrow>
   substitute_placeholders fs (render ps) = render (fill_all fs ps) \<and>
   (\<forall>p \<in> set (fill_all fs ps). clean p)"
proof (induction fs ps rule: fill_all.induct)
  case (1 ps)
  then show ?case by simp
next
  case (2 key v fs ps)
  from "2.prems"(2) have k: "CHR ''}'' \<notin> set key" and v: "CHR ''{'' \<notin> set v" and f: "plain_fields fs"
    by (simp_all add: plain_fields_Cons_str)
  have c: "\<forall>p \<in> set (map (fill key v) ps). clean p"
    using "2.prems"(1) v by (auto simp: clean_fill)
  from "2.IH" [OF c f] str_replace_render [OF "2.prems"(1) k, of v]
  show ?case by simp
qed (simp_all add: plain_fields_Cons_other)

lemma names_fill: "names (map (fill k v) ps) = names ps - {k}"
  by (induction ps rule: names.induct) auto

lemma fill_absent: "k \<notin> names ps \<Longrightarrow> map (fill k v) ps = ps"
  by (induction ps rule: names.induct) auto

lemma names_fill_all: "names (fill_all fs ps) \<subseteq> names ps"
  by (induction fs ps rule: fill_all.induct) (auto simp: names_fill)

lemma names_fill_all_key:
  "(k, VStr v) \<in> set fs \<Longrightarrow> k \<notin> names (fill_all fs ps)"
proof (induction fs ps rule: fill_all.induct)
  case (2 key v' fs ps)
  show ?case
  proof (cases "(k, VStr v) \<in> set fs")
    case True
    with "2.IH" show ?thesis by simp
  next
    case False
    with "2.prems" have "key = k" by auto
    then have "k \<notin> names (map (fill key v') ps)" by (simp add: names_fill)
    with names_fill_all [of fs "map (fill key v') ps"] show ?thesis by auto
  qed
qed auto

lemma fill_all_absent:
  "(\<forall>(k, v) \<in> set fs. \<forall>s. v = VStr s \<longrightarrow> k \<notin> names ps) \<Longrightarrow> fill_all fs ps = ps"
  by (induction fs ps rule: fill_all.induct) (auto simp: fill_absent)

text \<open>
  C7, amended: for every body in which every opening brace belongs to a placeholder
  \<^verbatim>\<open>{{name}}\<close> with a brace-free name, and every mapping in which no string value holds an
  opening brace and no key of a string-valued field a closing brace, one pass replaces
  each placeholder of a string-valued field by its value and leaves none of them behind,
  and a second pass with the same mapping yields the same text as the first.
\<close>

theorem substitution_idempotent:
  assumes "\<forall>p \<in> set ps. clean p"
    and "\<forall>(k, v) \<in> set fs. \<forall>s. v = VStr s \<longrightarrow> CHR ''}'' \<notin> set k \<and> CHR ''{'' \<notin> set s"
  shows "substitute_placeholders fs (substitute_placeholders fs (render ps)) =
           substitute_placeholders fs (render ps) \<and>
         substitute_placeholders fs (render ps) = render (fill_all fs ps) \<and>
         (\<forall>(k, v) \<in> set fs. \<forall>s. v = VStr s \<longrightarrow> k \<notin> names (fill_all fs ps))"
proof -
  from assms(2) have f: "plain_fields fs" by (simp add: plain_fields_def)
  from substitute_render [OF assms(1) f]
  have 1: "substitute_placeholders fs (render ps) = render (fill_all fs ps)"
    and 2: "\<forall>p \<in> set (fill_all fs ps). clean p" by simp_all
  from substitute_render [OF 2 f]
  have 3: "substitute_placeholders fs (render (fill_all fs ps)) =
           render (fill_all fs (fill_all fs ps))"
    by simp
  have 4: "\<forall>(k, v) \<in> set fs. \<forall>s. v = VStr s \<longrightarrow> k \<notin> names (fill_all fs ps)"
    by (auto dest: names_fill_all_key)
  then have "fill_all fs (fill_all fs ps) = fill_all fs ps"
    by (rule fill_all_absent)
  with 1 3 4 show ?thesis by simp
qed

theorem substitution_idempotent_witness:
  "substitute_placeholders [(''title'', VStr ''Test''), (''n'', VInt 3)] ''Hello {{title}}, {{n}}''
     = ''Hello Test, {{n}}'' \<and>
   substitute_placeholders [(''title'', VStr ''Test''), (''n'', VInt 3)]
     (substitute_placeholders [(''title'', VStr ''Test''), (''n'', VInt 3)] ''Hello {{title}}, {{n}}'')
     = ''Hello Test, {{n}}''"
proof -
  have r: "render [Text ''Hello '', Placeholder ''title'', Text '', '', Placeholder ''n'']
           = ''Hello {{title}}, {{n}}''"
    by (simp add: placeholder_def)
  have one: "substitute_placeholders [(''title'', VStr ''Test''), (''n'', VInt 3)]
               ''Hello {{title}}, {{n}}'' = ''Hello Test, {{n}}''"
    by (simp add: placeholder_def)
  have c: "\<forall>p \<in> set [Text ''Hello '', Placeholder ''title'', Text '', '', Placeholder ''n'']. clean p"
    by simp
  have f: "\<forall>(k, v) \<in> set [(''title'', VStr ''Test''), (''n'', VInt 3)].
             \<forall>s. v = VStr s \<longrightarrow> CHR ''}'' \<notin> set k \<and> CHR ''{'' \<notin> set s"
    by simp
  from substitution_idempotent [OF c f]
  have "substitute_placeholders [(''title'', VStr ''Test''), (''n'', VInt 3)]
          (substitute_placeholders [(''title'', VStr ''Test''), (''n'', VInt 3)]
             (render [Text ''Hello '', Placeholder ''title'', Text '', '', Placeholder ''n'']))
        = substitute_placeholders [(''title'', VStr ''Test''), (''n'', VInt 3)]
            (render [Text ''Hello '', Placeholder ''title'', Text '', '', Placeholder ''n''])"
    by (rule conjunct1)
  then show ?thesis unfolding r one by simp
qed

subsection \<open>Entry-point detection\<close>

lemma search_let_skip:
  "(\<forall>i<length pre. match_let (drop i (pre @ s)) = None) \<Longrightarrow> search_let (pre @ s) = search_let s"
proof (induction pre)
  case Nil
  then show ?case by simp
next
  case (Cons c pre)
  from Cons.prems have "match_let (drop 0 ((c # pre) @ s)) = None" by blast
  then have h: "match_let (c # pre @ s) = None" by simp
  have "\<forall>i<length pre. match_let (drop i (pre @ s)) = None"
  proof (intro allI impI)
    fix i assume "i < length pre"
    then have "Suc i < length (c # pre)" by simp
    with Cons.prems have "match_let (drop (Suc i) ((c # pre) @ s)) = None" by blast
    then show "match_let (drop i (pre @ s)) = None" by simp
  qed
  with Cons.IH h show ?case by simp
qed

lemma search_let_here: "match_let s = Some n \<Longrightarrow> search_let s = Some n"
  by (cases s) simp_all

lemma search_let_none:
  "(\<forall>i\<le>length t. match_let (drop i t) = None) \<Longrightarrow> search_let t = None"
proof (induction t)
  case Nil
  then show ?case by simp
next
  case (Cons c t)
  from Cons.prems have "match_let (drop 0 (c # t)) = None" by blast
  then have h: "match_let (c # t) = None" by simp
  have "\<forall>i\<le>length t. match_let (drop i t) = None"
  proof (intro allI impI)
    fix i assume "i \<le> length t"
    then have "Suc i \<le> length (c # t)" by simp
    with Cons.prems have "match_let (drop (Suc i) (c # t)) = None" by blast
    then show "match_let (drop i t) = None" by simp
  qed
  with Cons.IH h show ?case by simp
qed

lemma match_let_letter: "match_let (''#let letter('' @ post) = Some ''letter''"
  by (simp add: match_let_def is_space_def is_name_char_def is_word_def)

lemma no_hash_no_match:
  "CHR ''#'' \<notin> set pre \<Longrightarrow> i < length pre \<Longrightarrow> match_let (drop i (pre @ s)) = None"
proof -
  assume a: "CHR ''#'' \<notin> set pre" and b: "i < length pre"
  then obtain c cs where d: "drop i pre = c # cs" by (cases "drop i pre") auto
  then have "c \<in> set pre" by (metis in_set_dropD list.set_intros(1))
  with a have "c \<noteq> CHR ''#''" by auto
  then show ?thesis using d by (simp add: match_let_def)
qed

text \<open>
  C8, as claimed: a template containing \<^verbatim>\<open>#let letter(\<close> yields \<^verbatim>\<open>letter\<close>. It does not when
  another declaration comes first: \<^verbatim>\<open>re.search\<close> returns the leftmost match.
\<close>

theorem template_func_later_declaration:
  "template_func ''#let a()\<newline>#let letter('' = ''a''"
  by (simp add: template_func_def match_let_def is_space_def is_name_char_def is_word_def)

text \<open>
  C8, amended: a template in which \<^verbatim>\<open>#let letter(\<close> is the leftmost text that matches the
  declaration pattern yields \<^verbatim>\<open>letter\<close>, and a template in which the pattern matches at no
  position yields the fallback \<^verbatim>\<open>report\<close>.
\<close>

theorem template_func_leftmost:
  "((\<forall>i<length pre. match_let (drop i (pre @ ''#let letter('' @ post)) = None) \<longrightarrow>
      template_func (pre @ ''#let letter('' @ post) = ''letter'') \<and>
   ((\<forall>i\<le>length t. match_let (drop i t) = None) \<longrightarrow> template_func t = ''report'')"
proof (intro conjI impI)
  assume "\<forall>i<length pre. match_let (drop i (pre @ ''#let letter('' @ post)) = None"
  then have "search_let (pre @ ''#let letter('' @ post) = search_let (''#let letter('' @ post)"
    by (rule search_let_skip)
  also have "\<dots> = Some ''letter''"
    by (rule search_let_here [OF match_let_letter])
  finally have "search_let (pre @ ''#let letter('' @ post) = Some ''letter''" .
  then show "template_func (pre @ ''#let letter('' @ post) = ''letter''"
    unfolding template_func_def by (simp only: option.case)
next
  assume "\<forall>i\<le>length t. match_let (drop i t) = None"
  then have "search_let t = None" by (rule search_let_none)
  then show "template_func t = ''report''"
    unfolding template_func_def by (simp only: option.case)
qed

theorem template_func_leftmost_witness:
  "template_func (''// helpers\<newline>'' @ ''#let letter('' @ ''title) = {}'') = ''letter'' \<and>
   template_func ''= Heading'' = ''report''"
proof -
  have a: "\<forall>i<length ''// helpers\<newline>''.
             match_let (drop i (''// helpers\<newline>'' @ ''#let letter('' @ ''title) = {}'')) = None"
    by (intro allI impI no_hash_no_match) simp_all
  have b: "\<forall>i\<le>length ''= Heading''. match_let (drop i ''= Heading'') = None"
  proof (intro allI impI)
    fix i :: nat assume "i \<le> length ''= Heading''"
    then consider "i = length ''= Heading''" | "i < length (''= Heading'')" by linarith
    then show "match_let (drop i ''= Heading'') = None"
    proof cases
      case 1 then show ?thesis by (simp add: match_let_def)
    next
      case 2
      from no_hash_no_match [of "''= Heading''" i "[]"] 2 show ?thesis by simp
    qed
  qed
  from template_func_leftmost [of "''// helpers\<newline>''" "''title) = {}''" "''= Heading''"] a b
  show ?thesis by blast
qed

subsection \<open>The template parameter serializer\<close>

lemma rstrip_decompose: "v = rstrip v @ rev (takeWhile is_space (rev v))"
proof -
  have "rstrip v @ rev (takeWhile is_space (rev v)) =
        rev (takeWhile is_space (rev v) @ dropWhile is_space (rev v))"
    by (simp only: rstrip_def rev_append)
  also have "\<dots> = v"
    by (simp only: takeWhile_dropWhile_id rev_rev_ident)
  finally show ?thesis by simp
qed

lemma strip_decompose:
  "\<exists>a b. v = a @ strip v @ b \<and> (\<forall>c \<in> set a \<union> set b. is_space c)"
proof -
  let ?b = "rev (takeWhile is_space (rev v))"
  let ?a = "takeWhile is_space (rstrip v)"
  have 2: "rstrip v = ?a @ strip v" by (simp add: strip_def lstrip_def)
  have 3: "\<forall>c \<in> set ?a \<union> set ?b. is_space c"
    by (auto dest: set_takeWhileD)
  have "v = (?a @ strip v) @ ?b"
    by (subst 2 [symmetric]) (rule rstrip_decompose)
  then have "v = ?a @ strip v @ ?b" by (simp only: append_assoc)
  with 3 show ?thesis by blast
qed

lemma strip_ends:
  "strip v = [] \<or> (\<not> is_space (hd (strip v)) \<and> \<not> is_space (last (strip v)))"
proof (cases "strip v = []")
  case True then show ?thesis by simp
next
  case False
  then have "dropWhile is_space (rstrip v) \<noteq> []" by (simp add: strip_def lstrip_def)
  then have "\<not> is_space (hd (dropWhile is_space (rstrip v)))" by (rule hd_dropWhile)
  then have h: "\<not> is_space (hd (strip v))" by (simp add: strip_def lstrip_def)
  have r: "rstrip v \<noteq> []" using False by (auto simp: strip_def lstrip_def)
  then have "dropWhile is_space (rev v) \<noteq> []" by (simp add: rstrip_def)
  then have "\<not> is_space (hd (dropWhile is_space (rev v)))" by (rule hd_dropWhile)
  then have l: "\<not> is_space (last (rstrip v))"
    using r by (simp add: rstrip_def last_rev)
  have "rstrip v = takeWhile is_space (rstrip v) @ strip v" by (simp add: strip_def lstrip_def)
  then have "last (rstrip v) = last (strip v)" using False by (metis last_appendR)
  with h l show ?thesis by simp
qed

lemma build_params_member:
  "(key, v) \<in> set fs \<Longrightarrow> key \<noteq> ''template'' \<Longrightarrow>
   format_param (normalize_key key) v \<in> set (build_params fs)"
  by (induction fs rule: build_params.induct) auto

text \<open>
  C2, as claimed: the bracketed block holds the value verbatim, no character removed. The
  source strips the value first (\<^verbatim>\<open>clean_value = value.strip()\<close>): the leading space and
  the final newline of this value are gone from the block.
\<close>

theorem long_string_is_stripped:
  "build_params [(''abstract'', VStr '' Summary\<newline>'')] = [''  abstract: [Summary],'']"
  by code_simp

text \<open>
  C2, amended: for every field other than \<^verbatim>\<open>template\<close> whose string value is longer than
  100 characters or contains a newline, the serializer emits the bracketed block of the
  value with its leading and trailing whitespace removed: the value is some whitespace,
  the block's content, and some whitespace again, nothing inside the content is escaped
  or removed, and the content neither begins nor ends with whitespace.
\<close>

theorem long_string_bracketed:
  assumes "(key, VStr v) \<in> set fs" and "key \<noteq> ''template''"
    and "CHR ''\<newline>'' \<in> set v \<or> 100 < length v"
  shows "''  '' @ normalize_key key @ '': ['' @ strip v @ ''],'' \<in> set (build_params fs) \<and>
         (\<exists>a b. v = a @ strip v @ b \<and> (\<forall>c \<in> set a \<union> set b. is_space c)) \<and>
         (strip v = [] \<or> (\<not> is_space (hd (strip v)) \<and> \<not> is_space (last (strip v))))"
proof -
  have "format_param (normalize_key key) (VStr v) =
        ''  '' @ normalize_key key @ '': ['' @ strip v @ ''],''"
    using assms(3) by auto
  with build_params_member [OF assms(1,2)] strip_decompose strip_ends show ?thesis by simp
qed

theorem long_string_bracketed_witness:
  "''  abstract: [Line one\<newline>line two],'' \<in>
     set (build_params
            [(''title'', VStr ''T''), (''Abstract'', VStr ''  Line one\<newline>line two\<newline>'')])"
proof -
  have k: "normalize_key ''Abstract'' = ''abstract''" by code_simp
  have s: "strip ''  Line one\<newline>line two\<newline>'' = ''Line one\<newline>line two''" by code_simp
  from long_string_bracketed
    [of "''Abstract''" "''  Line one\<newline>line two\<newline>''"
        "[(''title'', VStr ''T''), (''Abstract'', VStr ''  Line one\<newline>line two\<newline>'')]"]
  show ?thesis unfolding k s by simp
qed

subsection \<open>Row names in per-row mode\<close>

lemma str_replace_char:
  "a \<noteq> b \<Longrightarrow> str_replace [a] [b] s = map (\<lambda>c. if c = a then b else c) s"
  by (induction s) auto

lemma safe_name_map:
  "safe_name r = map (\<lambda>c. if c = CHR '' '' \<or> c = CHR ''/'' then CHR ''_'' else c) r"
  by (simp add: safe_name_def str_replace_char)

text \<open>
  C9, as claimed: the file name of a row with a recipient contains no space. The name
  begins with the stem of the output path, which the source does not sanitize: with
  \<^verbatim>\<open>-o "my report.pdf"\<close> the row of recipient \<^verbatim>\<open>Bob\<close> is written to a name with a space.
\<close>

theorem row_output_keeps_base_name:
  "row_output (sample_job\<lparr>output_pdf := Path ''.'' ''my report.pdf''\<rparr>) 0
     [(''recipient'', Some ''Bob'')] = Inr (Path ''.'' ''my report_Bob.pdf'') \<and>
   CHR '' '' \<in> set ''my report_Bob.pdf''"
  by code_simp

text \<open>
  A line shorter than the header leaves the recipient \<^verbatim>\<open>None\<close>: the field is in the row, and
  naming the row raises \<^verbatim>\<open>AttributeError\<close>.
\<close>

lemma row_output_short_line:
  "row_get r ''recipient'' = Some None \<Longrightarrow> row_output j i r = Inl (OtherException ''AttributeError'')"
  by (simp add: row_output_def)

text \<open>
  C9, amended: for a row whose recipient field is a string, the output is written beside
  the output path, under the name made of the stem of the output path, an underscore, the
  recipient with every space and every \<^verbatim>\<open>/\<close> replaced by an underscore, and \<^verbatim>\<open>.pdf\<close>; the
  part that comes from the recipient contains no space and no \<^verbatim>\<open>/\<close>, and the whole name
  contains none when the stem contains none. A row without a recipient field is named by
  its 1-based index.
\<close>

theorem row_output_name:
  "(row_get r ''recipient'' = Some (Some recipient) \<longrightarrow>
      (\<exists>p. row_output j i r = Inr p \<and> parent p = parent (output_pdf j) \<and>
         name p = stem (output_pdf j) @ ''_'' @ safe_name recipient @ ''.pdf'' \<and>
         safe_name recipient =
           map (\<lambda>c. if c = CHR '' '' \<or> c = CHR ''/'' then CHR ''_'' else c) recipient \<and>
         CHR '' '' \<notin> set (safe_name recipient) \<and> CHR ''/'' \<notin> set (safe_name recipient) \<and>
         (CHR '' '' \<notin> set (stem (output_pdf j)) \<and> CHR ''/'' \<notin> set (stem (output_pdf j)) \<longrightarrow>
            CHR '' '' \<notin> set (name p) \<and> CHR ''/'' \<notin> set (name p)))) \<and>
   (row_get r ''recipient'' = None \<longrightarrow>
      row_output j i r =
        Inr (Path (parent (output_pdf j)) (stem (output_pdf j) @ ''_'' @ str_int (int i + 1) @ ''.pdf'')))"
  by (auto simp: row_output_def safe_name_map)

theorem row_output_name_witness:
  "row_output sample_job 0 [(''recipient'', Some ''A B/C'')] = Inr (Path ''.'' ''out_A_B_C.pdf'') \<and>
   row_output sample_job 2 [(''city'', Some ''Oslo'')] = Inr (Path ''.'' ''out_3.pdf'')"
proof -
  have a: "stem (output_pdf sample_job) = ''out''" "parent (output_pdf sample_job) = ''.''" by code_simp+
  have b: "safe_name ''A B/C'' = ''A_B_C''" by code_simp
  have c: "str_int (int 2 + 1) = ''3''" by code_simp
  have d: "row_get [(''recipient'', Some ''A B/C'')] ''recipient'' = Some (Some ''A B/C'')"
    "row_get [(''city'', Some ''Oslo'')] ''recipient'' = None" by code_simp+
  from row_output_name [of "[(''recipient'', Some ''A B/C'')]" "''A B/C''" sample_job 0]
    row_output_name [of "[(''city'', Some ''Oslo'')]" "[]" sample_job 2] d
  show ?thesis unfolding a b c by (auto simp: path.expand)
qed

subsection \<open>Files and processes\<close>

text \<open>What one call of a process, and one file operation, does to the world.\<close>

lemma subprocess_run_effect:
  assumes "subprocess_run e args w = (r, w1)"
  shows "\<exists>c. calls w1 = calls w @ [c] \<and> argv c = args \<and> result c = r \<and> files w1 = files_after c
           \<and> out w1 = out w \<and> err w1 = err w
           \<and> (files w1 = files w \<or> files w1 = snd (run e args (files w)))"
  using assms
  by (auto simp: subprocess_run_def split: prod.splits proc_result.splits)

lemma subprocess_run_checked_effect:
  assumes "subprocess_run_checked e args w = (res, w1)"
  shows "\<exists>c. calls w1 = calls w @ [c] \<and> argv c = args \<and> files w1 = files_after c
           \<and> out w1 = out w \<and> err w1 = err w
           \<and> (failed (result c) \<longleftrightarrow> (\<exists>d. res = Inl (CalledProcessError d)))
           \<and> (files w1 = files w \<or> files w1 = snd (run e args (files w)))"
proof -
  obtain r w0 where s: "subprocess_run e args w = (r, w0)" by (cases "subprocess_run e args w")
  from subprocess_run_effect [OF s] obtain c where
    c: "calls w0 = calls w @ [c]" "argv c = args" "result c = r" "files w0 = files_after c"
       "out w0 = out w" "err w0 = err w"
       "files w0 = files w \<or> files w0 = snd (run e args (files w))" by blast
  from assms s have "w1 = w0"
    by (auto simp: subprocess_run_checked_def split: proc_result.splits if_splits)
  moreover from assms s c(3) have "failed (result c) \<longleftrightarrow> (\<exists>d. res = Inl (CalledProcessError d))"
    by (auto simp: subprocess_run_checked_def failed_def split: proc_result.splits if_splits)
  ultimately show ?thesis using c by blast
qed

lemma subprocess_run_checked_files:
  assumes "subprocess_run_checked e args w = (res, w1)"
    and "writes_only e args target" and "p \<noteq> target"
  shows "files w1 p = files w p"
proof -
  from subprocess_run_checked_effect [OF assms(1)]
  have "files w1 = files w \<or> files w1 = snd (run e args (files w))" by blast
  with assms(2,3) show ?thesis by (auto simp: writes_only_def)
qed

lemma write_file_effect:
  "write_file e p t w = Inr w1 \<Longrightarrow>
   files w1 = (files w)(realpath e p \<mapsto> t) \<and> calls w1 = calls w \<and> out w1 = out w \<and> err w1 = err w"
  by (auto simp: write_file_def split: if_splits)

lemma unlink_effect:
  "unlink e p w = Inr w1 \<Longrightarrow>
   files w1 = (files w)(realpath e p := None) \<and> calls w1 = calls w \<and> out w1 = out w \<and> err w1 = err w"
  by (auto simp: unlink_def split: option.splits)

lemma shutil_copy_effect:
  "shutil_copy e src dst w = Inr w1 \<Longrightarrow>
   (\<exists>t. files w1 = (files w)(realpath e dst \<mapsto> t)) \<and> calls w1 = calls w
   \<and> out w1 = out w \<and> err w1 = err w"
  by (auto simp: shutil_copy_def dest: write_file_effect split: option.splits if_splits)

lemma unlink_if_exists_simps [simp]:
  "files (unlink_if_exists e p w) = (files w)(realpath e p := None)"
  "calls (unlink_if_exists e p w) = calls w"
  "out (unlink_if_exists e p w) = out w"
  "err (unlink_if_exists e p w) = err w"
  by (simp_all add: unlink_if_exists_def)

lemma print_out_simps [simp]:
  "files (print_out m w) = files w"
  "calls (print_out m w) = calls w"
  "out (print_out m w) = out w @ [m]"
  "err (print_out m w) = err w"
  by (simp_all add: print_out_def)

lemma print_err_simps [simp]:
  "files (print_err m w) = files w"
  "calls (print_err m w) = calls w"
  "out (print_err m w) = out w"
  "err (print_err m w) = err w @ [m]"
  by (simp_all add: print_err_def)

lemma io_never_called_process_error [simp]:
  "read_file e p w \<noteq> Inl (CalledProcessError d)"
  "write_file e p t w \<noteq> Inl (CalledProcessError d)"
  "unlink e p w \<noteq> Inl (CalledProcessError d)"
  "shutil_copy e src dst w \<noteq> Inl (CalledProcessError d)"
  by (simp_all add: read_file_def write_file_def unlink_def shutil_copy_def split: option.splits)

lemma new_calls_simps [simp]:
  "new_calls w w = []"
  "new_calls w (print_out m w1) = new_calls w w1"
  "new_calls w (print_err m w1) = new_calls w w1"
  "new_calls w (unlink_if_exists e p w1) = new_calls w w1"
  by (simp_all add: new_calls_def)

text \<open>
  The two stages of the conversion: which calls they make, what they print, which files
  they leave alone, and what is gone when they return normally.
\<close>

lemma markup_stage_calls:
  assumes "markup_stage e j hdr w = (res, w1)"
  shows "prefix (calls w) (calls w1) \<and>
         (\<forall>c \<in> set (new_calls w w1). argv c = pandoc_cmd j \<and>
            (failed (result c) \<longrightarrow> files w1 = files_after c \<and> (\<exists>d. res = Inl (CalledProcessError d)))) \<and>
         ((\<exists>d. res = Inl (CalledProcessError d)) \<longrightarrow> (\<exists>c \<in> set (new_calls w w1). failed (result c)))"
  using assms unfolding markup_stage_def new_calls_def
  by (auto simp: read_file_def split: sum.splits header.splits option.splits prod.splits
      dest!: subprocess_run_checked_effect write_file_effect unlink_effect)

lemma markup_stage_prints:
  assumes "markup_stage e j hdr w = (res, w1)"
  shows "err w1 = err w \<and> prefix (out w) (out w1) \<and>
         set (drop (length (out w)) (out w1)) \<subseteq> {ConvertingToTypst (name (markdown_file j))}"
  using assms unfolding markup_stage_def
  by (auto simp: read_file_def split: sum.splits header.splits option.splits prod.splits
      dest!: subprocess_run_checked_effect write_file_effect unlink_effect)

lemma markup_stage_frame:
  assumes "markup_stage e j hdr w = (res, w1)"
    and "writes_only e (pandoc_cmd j) (realpath e (temp_typst j))"
    and "p \<noteq> realpath e (temp_md j)" and "p \<noteq> realpath e (temp_typst j)"
  shows "files w1 p = files w p"
  using assms unfolding markup_stage_def
  by (auto simp: read_file_def split: sum.splits header.splits option.splits prod.splits
      dest!: subprocess_run_checked_files [where p = p] write_file_effect unlink_effect)

lemma markup_stage_done:
  assumes "markup_stage e j hdr w = (Inr x, w1)"
  shows "files w1 (realpath e (temp_md j)) = None"
  using assms unfolding markup_stage_def
  by (auto simp: read_file_def split: sum.splits header.splits option.splits prod.splits
      dest!: unlink_effect)

lemma pdf_stage_calls:
  assumes "pdf_stage e j fs body w = (res, w1)"
  shows "prefix (calls w) (calls w1) \<and>
         (\<forall>c \<in> set (new_calls w w1). argv c = typst_cmd j \<and>
            (failed (result c) \<longrightarrow> files w1 = files_after c \<and> (\<exists>d. res = Inl (CalledProcessError d)))) \<and>
         ((\<exists>d. res = Inl (CalledProcessError d)) \<longrightarrow> (\<exists>c \<in> set (new_calls w w1). failed (result c)))"
  using assms unfolding pdf_stage_def new_calls_def
  by (auto simp: read_file_def split: sum.splits option.splits prod.splits
      dest!: subprocess_run_checked_effect write_file_effect unlink_effect shutil_copy_effect)

lemma pdf_stage_prints:
  assumes "pdf_stage e j fs body w = (res, w1)"
  shows "err w1 = err w \<and> prefix (out w) (out w1) \<and>
         set (drop (length (out w)) (out w1)) \<subseteq> {ConvertingToPdf, SuccessfullyCreated (output_pdf j)}"
  using assms unfolding pdf_stage_def
  by (auto simp: read_file_def split: sum.splits option.splits prod.splits
      dest!: subprocess_run_checked_effect write_file_effect unlink_effect shutil_copy_effect)

lemma pdf_stage_done:
  assumes "pdf_stage e j fs body w = (Inr x, w1)"
  shows "files w1 (realpath e (temp_typst j)) = None \<and> files w1 (realpath e (temp_template j)) = None"
  using assms unfolding pdf_stage_def
  by (auto simp: read_file_def split: sum.splits option.splits prod.splits
      dest!: unlink_effect)

lemma pdf_stage_frame:
  assumes "pdf_stage e j fs body w = (Inr x, w1)"
    and "writes_only e (typst_cmd j) (realpath e (output_pdf j))"
    and "p \<noteq> realpath e (output_pdf j)" and "files w p = None"
  shows "files w1 p = None"
  using assms unfolding pdf_stage_def
  by (auto simp: read_file_def split: sum.splits option.splits prod.splits if_splits
      dest!: subprocess_run_checked_files [where p = p] write_file_effect unlink_effect shutil_copy_effect)

lemma new_calls_trans:
  assumes "prefix (calls w) (calls w1)" and "prefix (calls w1) (calls w2)"
  shows "new_calls w w2 = new_calls w w1 @ new_calls w1 w2 \<and> prefix (calls w) (calls w2)"
proof -
  from assms obtain a b where "calls w1 = calls w @ a" "calls w2 = calls w1 @ b"
    by (auto simp: prefix_def)
  then show ?thesis by (simp add: new_calls_def)
qed

lemma handle_exception_simps [simp]:
  "calls (handle_exception e j a b x w) = calls w"
  "out (handle_exception e j a b x w) = out w"
  "new_calls w0 (handle_exception e j a b x w) = new_calls w0 w"
  "files (handle_exception e j a b (CalledProcessError d) w) = files w"
  by (simp_all add: handle_exception_def new_calls_def Let_def split: exn.splits)

lemma handle_exception_other_files:
  "files (handle_exception e j md_bound template_bound (OtherException t) w) p =
     (if p = realpath e (temp_typst j) \<or> (template_bound \<and> p = realpath e (temp_template j))
         \<or> (md_bound \<and> p = realpath e (temp_md j))
      then None else files w p)"
  by (simp add: handle_exception_def Let_def)

lemma handle_exception_err:
  "prefix (err w) (err (handle_exception e j a b x w)) \<and>
   (\<forall>m \<in> set (drop (length (err w)) (err (handle_exception e j a b x w))).
      \<not> is_failed_to_generate m)"
  by (auto simp: handle_exception_def Let_def split: exn.splits)

text \<open>The five ways through \<^verbatim>\<open>convert_markdown_to_pdf\<close>.\<close>

lemma convert_cases [consumes 1, case_names no_name load markup pdf ok]:
  assumes "convert_markdown_to_pdf e j w = (r, w')"
  obtains "name (output_pdf j) = []" and "r = Inl (OtherException ''ValueError'')" and "w' = w"
  | x where "name (output_pdf j) \<noteq> []" and "load_fields e j w = Inl x" and "r = Inr False"
      and "w' = handle_exception e j False False x w"
  | hdr x w1 where "name (output_pdf j) \<noteq> []" and "load_fields e j w = Inr hdr"
      and "markup_stage e j hdr w = (Inl x, w1)" and "r = Inr False"
      and "w' = handle_exception e j True False x w1"
  | hdr fs body w1 x w2 where "name (output_pdf j) \<noteq> []" and "load_fields e j w = Inr hdr"
      and "markup_stage e j hdr w = (Inr (fs, body), w1)"
      and "pdf_stage e j fs body w1 = (Inl x, w2)" and "r = Inr False"
      and "w' = handle_exception e j True True x w2"
  | hdr fs body w1 where "name (output_pdf j) \<noteq> []" and "load_fields e j w = Inr hdr"
      and "markup_stage e j hdr w = (Inr (fs, body), w1)"
      and "pdf_stage e j fs body w1 = (Inr (), w')" and "r = Inr True"
  using assms unfolding convert_markdown_to_pdf_def
  by (auto split: if_splits sum.splits prod.splits)


lemma markup_stage_prefix:
  "markup_stage e j hdr w = (res, w1) \<Longrightarrow> prefix (calls w) (calls w1)"
  using markup_stage_calls by blast

lemma markup_stage_call:
  "markup_stage e j hdr w = (res, w1) \<Longrightarrow> c \<in> set (new_calls w w1) \<Longrightarrow> argv c = pandoc_cmd j"
  using markup_stage_calls by blast

lemma markup_stage_failed_call:
  "markup_stage e j hdr w = (res, w1) \<Longrightarrow> c \<in> set (new_calls w w1) \<Longrightarrow> failed (result c) \<Longrightarrow>
   files w1 = files_after c \<and> (\<exists>d. res = Inl (CalledProcessError d))"
  using markup_stage_calls by blast

lemma markup_stage_called_process_error:
  "markup_stage e j hdr w = (Inl (CalledProcessError d), w1) \<Longrightarrow>
   \<exists>c \<in> set (new_calls w w1). failed (result c)"
  using markup_stage_calls by blast

lemma pdf_stage_prefix:
  "pdf_stage e j fs body w = (res, w1) \<Longrightarrow> prefix (calls w) (calls w1)"
  using pdf_stage_calls by blast

lemma pdf_stage_call:
  "pdf_stage e j fs body w = (res, w1) \<Longrightarrow> c \<in> set (new_calls w w1) \<Longrightarrow> argv c = typst_cmd j"
  using pdf_stage_calls by blast

lemma pdf_stage_failed_call:
  "pdf_stage e j fs body w = (res, w1) \<Longrightarrow> c \<in> set (new_calls w w1) \<Longrightarrow> failed (result c) \<Longrightarrow>
   files w1 = files_after c \<and> (\<exists>d. res = Inl (CalledProcessError d))"
  using pdf_stage_calls by blast

lemma pdf_stage_called_process_error:
  "pdf_stage e j fs body w = (Inl (CalledProcessError d), w1) \<Longrightarrow>
   \<exists>c \<in> set (new_calls w w1). failed (result c)"
  using pdf_stage_calls by blast

subsection \<open>A tool that exits non-zero\<close>

text \<open>
  C4. Whenever a call of an external tool made by a conversion exits non-zero, the
  conversion returns \<^verbatim>\<open>False\<close> to its caller (it raises nothing), and the files at its
  return are exactly the files the failing tool left: nothing is deleted afterwards, so
  the intermediate markup file, as far as the tool produced it, stays on disk. The failing
  call is the pandoc call or the typst call of this conversion.
\<close>

theorem tool_failure_keeps_files:
  assumes "c \<in> set (new_calls w (snd (convert_markdown_to_pdf e j w)))"
    and "failed (result c)"
  shows "fst (convert_markdown_to_pdf e j w) = Inr False \<and>
         files (snd (convert_markdown_to_pdf e j w)) = files_after c \<and>
         (argv c = pandoc_cmd j \<or> argv c = typst_cmd j)"
proof -
  obtain r w' where cv: "convert_markdown_to_pdf e j w = (r, w')"
    by (cases "convert_markdown_to_pdf e j w")
  with assms(1) have c: "c \<in> set (new_calls w w')" by simp
  from cv have "r = Inr False \<and> files w' = files_after c \<and>
                (argv c = pandoc_cmd j \<or> argv c = typst_cmd j)"
  proof (cases rule: convert_cases)
    case no_name
    with c show ?thesis by simp
  next
    case (load x)
    with c show ?thesis by simp
  next
    case (markup hdr x w1)
    from c markup(5) have c1: "c \<in> set (new_calls w w1)" by simp
    from markup_stage_failed_call [OF markup(3) c1 assms(2)]
    obtain d where f: "files w1 = files_after c" and x: "x = CalledProcessError d" by auto
    from markup(5) x have "files w' = files w1" by simp
    with f markup(4) markup_stage_call [OF markup(3) c1] show ?thesis by simp
  next
    case (pdf hdr fs body w1 x w2)
    from new_calls_trans [OF markup_stage_prefix [OF pdf(3)] pdf_stage_prefix [OF pdf(4)]]
    have t: "new_calls w w2 = new_calls w w1 @ new_calls w1 w2" by simp
    from c pdf(6) have "c \<in> set (new_calls w w2)" by simp
    with t have "c \<in> set (new_calls w w1) \<or> c \<in> set (new_calls w1 w2)" by simp
    moreover have "c \<notin> set (new_calls w w1)"
    proof
      assume "c \<in> set (new_calls w w1)"
      from markup_stage_failed_call [OF pdf(3) this assms(2)] show False by simp
    qed
    ultimately have c2: "c \<in> set (new_calls w1 w2)" by simp
    from pdf_stage_failed_call [OF pdf(4) c2 assms(2)]
    obtain d where f: "files w2 = files_after c" and x: "x = CalledProcessError d" by auto
    from pdf(6) x have "files w' = files w2" by simp
    with f pdf(5) pdf_stage_call [OF pdf(4) c2] show ?thesis by simp
  next
    case (ok hdr fs body w1)
    from new_calls_trans [OF markup_stage_prefix [OF ok(3)] pdf_stage_prefix [OF ok(4)]]
    have t: "new_calls w w' = new_calls w w1 @ new_calls w1 w'" by simp
    with c have "c \<in> set (new_calls w w1) \<or> c \<in> set (new_calls w1 w')" by simp
    moreover have "c \<notin> set (new_calls w w1)"
    proof
      assume "c \<in> set (new_calls w w1)"
      from markup_stage_failed_call [OF ok(3) this assms(2)] show False by simp
    qed
    moreover have "c \<notin> set (new_calls w1 w')"
    proof
      assume "c \<in> set (new_calls w1 w')"
      from pdf_stage_failed_call [OF ok(4) this assms(2)] show False by simp
    qed
    ultimately show ?thesis by simp
  qed
  with cv show ?thesis by simp
qed

theorem tool_failure_keeps_files_witness:
  "fst (convert_markdown_to_pdf (sample_env [''out.temp.md'']) sample_job sample_world) = Inr False \<and>
   files (snd (convert_markdown_to_pdf (sample_env [''out.temp.md'']) sample_job sample_world))
     (Path ''.'' ''out.typ'') = Some ''partial''"
proof -
  let ?w = "snd (convert_markdown_to_pdf (sample_env [''out.temp.md'']) sample_job sample_world)"
  have n: "length (new_calls sample_world ?w) = 1" by code_simp
  then have "new_calls sample_world ?w \<noteq> []" by auto
  then have m: "last (new_calls sample_world ?w) \<in> set (new_calls sample_world ?w)"
    by (rule last_in_set)
  have f: "failed (result (last (new_calls sample_world ?w)))" by code_simp
  have s: "files_after (last (new_calls sample_world ?w)) (Path ''.'' ''out.typ'') = Some ''partial''"
    by code_simp
  from tool_failure_keeps_files [OF m f] s show ?thesis by simp
qed

subsection \<open>The intermediate files at the end of a conversion\<close>

text \<open>
  C3, as claimed: every intermediate file is deleted on every exit path. It is not when
  pandoc exits non-zero: the handler of \<^verbatim>\<open>CalledProcessError\<close> deletes nothing, and the
  substituted markdown file and the partial markup file, neither of which existed before,
  are on disk when the conversion returns.
\<close>

theorem tool_failure_leaves_artifacts:
  "fst (convert_markdown_to_pdf (sample_env [''out.temp.md'']) sample_job sample_world) = Inr False \<and>
   map (files sample_world) (artifacts (sample_env [''out.temp.md'']) sample_job) = [None, None, None] \<and>
   map (files (snd (convert_markdown_to_pdf (sample_env [''out.temp.md'']) sample_job sample_world)))
     (artifacts (sample_env [''out.temp.md'']) sample_job)
   = [Some ''Dear {{recipient}}'', Some ''partial'', None]"
  by code_simp

lemma artifacts_all:
  "(\<forall>p \<in> set (artifacts e j). P p) \<longleftrightarrow>
   P (realpath e (temp_md j)) \<and> P (realpath e (temp_typst j)) \<and> P (realpath e (temp_template j))"
  by (simp add: artifacts_def)

text \<open>
  C3, amended: take a conversion in which no call of an external tool exits non-zero,
  with tools that keep to their contract (pandoc changes no file but the markup file it
  is told to write, typst none but the PDF), and whose PDF is not the same file as the
  substituted markdown file. When it returns \<^verbatim>\<open>True\<close>, none of the three intermediate
  files exists. However it returns, each of the three is either absent or the very file
  that was there before the conversion began: nothing the conversion created is left.
\<close>

theorem artifacts_removed:
  assumes "writes_only e (pandoc_cmd j) (realpath e (temp_typst j))"
    and "writes_only e (typst_cmd j) (realpath e (output_pdf j))"
    and "realpath e (temp_md j) \<noteq> realpath e (output_pdf j)"
    and "\<forall>c \<in> set (new_calls w (snd (convert_markdown_to_pdf e j w))). \<not> failed (result c)"
  shows "(fst (convert_markdown_to_pdf e j w) = Inr True \<longrightarrow>
            (\<forall>p \<in> set (artifacts e j). files (snd (convert_markdown_to_pdf e j w)) p = None)) \<and>
         (\<forall>p \<in> set (artifacts e j).
            files (snd (convert_markdown_to_pdf e j w)) p = None \<or>
            files (snd (convert_markdown_to_pdf e j w)) p = files w p)"
proof -
  obtain r w' where cv: "convert_markdown_to_pdf e j w = (r, w')"
    by (cases "convert_markdown_to_pdf e j w")
  with assms(4) have nf: "\<forall>c \<in> set (new_calls w w'). \<not> failed (result c)" by simp
  from cv have "(r = Inr True \<longrightarrow> (\<forall>p \<in> set (artifacts e j). files w' p = None)) \<and>
                (\<forall>p \<in> set (artifacts e j). files w' p = None \<or> files w' p = files w p)"
  proof (cases rule: convert_cases)
    case no_name
    then show ?thesis by simp
  next
    case (load x)
    have "files w' p = None \<or> files w' p = files w p" for p
      using load(4) by (cases x) (simp_all add: handle_exception_other_files)
    then have "\<forall>p \<in> set (artifacts e j). files w' p = None \<or> files w' p = files w p"
      by (rule ballI)
    moreover from load(3) have "r \<noteq> Inr True" by simp
    ultimately show ?thesis by blast
  next
    case (markup hdr x w1)
    from nf markup(5) have nf1: "\<forall>c \<in> set (new_calls w w1). \<not> failed (result c)" by simp
    obtain t where x: "x = OtherException t"
    proof (cases x)
      case (CalledProcessError d)
      with markup_stage_called_process_error [of e j hdr w d w1] markup(3) nf1
      show ?thesis by blast
    qed
    have "files w' p = None \<or> files w' p = files w p" for p
    proof (cases "p = realpath e (temp_md j) \<or> p = realpath e (temp_typst j)")
      case True
      then have "files w' p = None"
        unfolding markup(5) x handle_exception_other_files by auto
      then show ?thesis by (rule disjI1)
    next
      case False
      then have "files w1 p = files w p"
        using markup_stage_frame [OF markup(3) assms(1)] by blast
      then have "files w' p = files w p"
        unfolding markup(5) x handle_exception_other_files using False by auto
      then show ?thesis by (rule disjI2)
    qed
    then have "\<forall>p \<in> set (artifacts e j). files w' p = None \<or> files w' p = files w p"
      by (rule ballI)
    moreover from markup(4) have "r \<noteq> Inr True" by simp
    ultimately show ?thesis by blast
  next
    case (pdf hdr fs body w1 x w2)
    from new_calls_trans [OF markup_stage_prefix [OF pdf(3)] pdf_stage_prefix [OF pdf(4)]]
    have t: "new_calls w w2 = new_calls w w1 @ new_calls w1 w2" by simp
    from nf pdf(6) t have nf2: "\<forall>c \<in> set (new_calls w1 w2). \<not> failed (result c)" by simp
    obtain t where x: "x = OtherException t"
    proof (cases x)
      case (CalledProcessError d)
      with pdf_stage_called_process_error [of e j fs body w1 d w2] pdf(4) nf2
      show ?thesis by blast
    qed
    have g: "files w' (realpath e (temp_md j)) = None" "files w' (realpath e (temp_typst j)) = None"
      "files w' (realpath e (temp_template j)) = None"
      unfolding pdf(6) x handle_exception_other_files by simp_all
    show ?thesis unfolding artifacts_all using g by simp
  next
    case (ok hdr fs body w1)
    from pdf_stage_done [OF ok(4)]
    have a: "files w' (realpath e (temp_typst j)) = None"
      "files w' (realpath e (temp_template j)) = None"
      by simp_all
    from markup_stage_done [OF ok(3)] have "files w1 (realpath e (temp_md j)) = None" .
    from pdf_stage_frame [OF ok(4) assms(2,3) this]
    have "files w' (realpath e (temp_md j)) = None" .
    with a show ?thesis unfolding artifacts_all by simp
  qed
  with cv show ?thesis by simp
qed

lemma sample_cmds:
  "pandoc_cmd sample_job = [''pandoc'', ''out.temp.md'', ''-t'', ''typst'', ''-o'', ''out.typ'']"
  "typst_cmd sample_job = [''typst'', ''compile'', ''out.typ'', ''out.pdf'']"
  "temp_typst sample_job = Path ''.'' ''out.typ''"
  "temp_md sample_job = Path ''.'' ''out.temp.md''"
  "output_pdf sample_job = Path ''.'' ''out.pdf''"
  by code_simp+

lemma sample_env_simps:
  "realpath (sample_env bad) p = p"
  "run (sample_env []) (''pandoc'' # a # b # c # d # t # rest) fs =
     (Exited 0 [], fs(Path ''.'' t \<mapsto> ''Dear reader''))"
  "run (sample_env bad) [''typst'', a, b, t] fs = (Exited 0 [], fs(Path ''.'' t \<mapsto> ''%PDF''))"
  by (simp_all add: sample_env_def)

theorem artifacts_removed_witness:
  "fst (convert_markdown_to_pdf (sample_env []) sample_job sample_world) = Inr True \<and>
   map (files (snd (convert_markdown_to_pdf (sample_env []) sample_job sample_world)))
     (artifacts (sample_env []) sample_job) = [None, None, None]"
proof -
  have a: "writes_only (sample_env []) (pandoc_cmd sample_job)
             (realpath (sample_env []) (temp_typst sample_job))"
    by (simp add: writes_only_def sample_cmds sample_env_simps)
  have b: "writes_only (sample_env []) (typst_cmd sample_job)
             (realpath (sample_env []) (output_pdf sample_job))"
    by (simp add: writes_only_def sample_cmds sample_env_simps)
  have c: "realpath (sample_env []) (temp_md sample_job) \<noteq> realpath (sample_env []) (output_pdf sample_job)"
    by (simp add: sample_cmds sample_env_simps)
  have "list_all (\<lambda>c. \<not> failed (result c))
          (new_calls sample_world (snd (convert_markdown_to_pdf (sample_env []) sample_job sample_world)))"
    by code_simp
  then have d: "\<forall>c \<in> set (new_calls sample_world
                  (snd (convert_markdown_to_pdf (sample_env []) sample_job sample_world))).
                \<not> failed (result c)"
    by (simp add: list_all_iff)
  have t: "fst (convert_markdown_to_pdf (sample_env []) sample_job sample_world) = Inr True"
    by code_simp
  from artifacts_removed [OF a b c d] t show ?thesis
    by (simp add: artifacts_def)
qed

subsection \<open>The batch driver\<close>

text \<open>What a conversion does to the call log and to the reports, whatever way it takes.\<close>

lemma filter_new_none:
  assumes "prefix xs ys" and "\<forall>m \<in> set (drop (length xs) ys). \<not> P m"
  shows "filter P ys = filter P xs"
proof -
  from assms(1) obtain zs where "ys = xs @ zs" by (auto simp: prefix_def)
  with assms(2) show ?thesis by simp
qed

lemma markup_stage_out:
  assumes "markup_stage e j hdr w = (res, w1)"
  shows "filter is_generated (out w1) = filter is_generated (out w)" and "err w1 = err w"
proof -
  from markup_stage_prints [OF assms]
  have p: "prefix (out w) (out w1)"
    and s: "set (drop (length (out w)) (out w1)) \<subseteq> {ConvertingToTypst (name (markdown_file j))}"
    and e: "err w1 = err w" by simp_all
  from s have "\<forall>m \<in> set (drop (length (out w)) (out w1)). \<not> is_generated m" by auto
  with p show "filter is_generated (out w1) = filter is_generated (out w)" by (rule filter_new_none)
  from e show "err w1 = err w" .
qed

lemma pdf_stage_out:
  assumes "pdf_stage e j fs body w = (res, w1)"
  shows "filter is_generated (out w1) = filter is_generated (out w)" and "err w1 = err w"
proof -
  from pdf_stage_prints [OF assms]
  have p: "prefix (out w) (out w1)"
    and s: "set (drop (length (out w)) (out w1)) \<subseteq> {ConvertingToPdf, SuccessfullyCreated (output_pdf j)}"
    and e: "err w1 = err w" by simp_all
  from s have "\<forall>m \<in> set (drop (length (out w)) (out w1)). \<not> is_generated m" by auto
  with p show "filter is_generated (out w1) = filter is_generated (out w)" by (rule filter_new_none)
  from e show "err w1 = err w" .
qed

lemma handle_exception_reports:
  "filter is_failed_to_generate (err (handle_exception e j a b x w)) = filter is_failed_to_generate (err w)"
  using handle_exception_err [of w e j a b x] by (auto intro: filter_new_none)

lemma convert_effect:
  assumes "convert_markdown_to_pdf e j w = (r, w')"
  shows "prefix (calls w) (calls w')"
    and "\<forall>c \<in> set (new_calls w w'). argv c = pandoc_cmd j \<or> argv c = typst_cmd j"
    and "filter is_generated (out w') = filter is_generated (out w)"
    and "filter is_failed_to_generate (err w') = filter is_failed_to_generate (err w)"
    and "name (output_pdf j) \<noteq> [] \<Longrightarrow> \<exists>b. r = Inr b"
proof -
  from assms have
    "prefix (calls w) (calls w') \<and>
     (\<forall>c \<in> set (new_calls w w'). argv c = pandoc_cmd j \<or> argv c = typst_cmd j) \<and>
     filter is_generated (out w') = filter is_generated (out w) \<and>
     filter is_failed_to_generate (err w') = filter is_failed_to_generate (err w) \<and>
     (name (output_pdf j) \<noteq> [] \<longrightarrow> (\<exists>b. r = Inr b))"
  proof (cases rule: convert_cases)
    case no_name
    then show ?thesis by simp
  next
    case (load x)
    then show ?thesis by (auto simp: handle_exception_reports)
  next
    case (markup hdr x w1)
    from markup_stage_prefix [OF markup(3)] markup_stage_call [OF markup(3)]
      markup_stage_out [OF markup(3)] markup(4,5)
    show ?thesis by (auto simp: handle_exception_reports)
  next
    case (pdf hdr fs body w1 x w2)
    from new_calls_trans [OF markup_stage_prefix [OF pdf(3)] pdf_stage_prefix [OF pdf(4)]]
    have t: "new_calls w w2 = new_calls w w1 @ new_calls w1 w2" "prefix (calls w) (calls w2)"
      by simp_all
    have k: "\<forall>c \<in> set (new_calls w w2). argv c = pandoc_cmd j \<or> argv c = typst_cmd j"
      unfolding t using markup_stage_call [OF pdf(3)] pdf_stage_call [OF pdf(4)] by auto
    from t(2) k markup_stage_out [OF pdf(3)] pdf_stage_out [OF pdf(4)] pdf(5,6)
    show ?thesis by (auto simp: handle_exception_reports)
  next
    case (ok hdr fs body w1)
    from new_calls_trans [OF markup_stage_prefix [OF ok(3)] pdf_stage_prefix [OF ok(4)]]
    have t: "new_calls w w' = new_calls w w1 @ new_calls w1 w'" "prefix (calls w) (calls w')"
      by simp_all
    have k: "\<forall>c \<in> set (new_calls w w'). argv c = pandoc_cmd j \<or> argv c = typst_cmd j"
      unfolding t using markup_stage_call [OF ok(3)] pdf_stage_call [OF ok(4)] by auto
    from t(2) k markup_stage_out [OF ok(3)] pdf_stage_out [OF ok(4)] ok(5)
    show ?thesis by auto
  qed
  then show "prefix (calls w) (calls w')"
    and "\<forall>c \<in> set (new_calls w w'). argv c = pandoc_cmd j \<or> argv c = typst_cmd j"
    and "filter is_generated (out w') = filter is_generated (out w)"
    and "filter is_failed_to_generate (err w') = filter is_failed_to_generate (err w)"
    and "name (output_pdf j) \<noteq> [] \<Longrightarrow> \<exists>b. r = Inr b"
    by blast+
qed

lemma cmd_heads:
  "take 1 (pandoc_cmd j) = [''pandoc'']" "take 1 (typst_cmd j) = [''typst'']"
  by (simp_all add: pandoc_cmd_def typst_cmd_def)

text \<open>A row of merge mode is converted or fails: its conversion raises nothing.\<close>

lemma merge_job_returns:
  "\<exists>b. fst (convert_markdown_to_pdf e (merge_job j i r) w) = Inr b"
proof -
  obtain x w1 where cv: "convert_markdown_to_pdf e (merge_job j i r) w = (x, w1)"
    by (cases "convert_markdown_to_pdf e (merge_job j i r) w")
  have "name (output_pdf (merge_job j i r)) \<noteq> []"
    by (simp add: merge_job_def temp_pdf_def)
  from convert_effect(5) [OF cv this] cv show ?thesis by simp
qed

lemma merge_rows_append:
  "merge_rows e j i (pre @ rest) acc w =
     (case merge_rows e j i pre acc w of
        (Inl s, w1) \<Rightarrow> (Inl s, w1)
      | (Inr pdfs, w1) \<Rightarrow> merge_rows e j (i + length pre) rest pdfs w1)"
  by (induction pre arbitrary: i acc w) (auto split: prod.splits sum.splits)

lemma merge_rows_calls:
  "merge_rows e j i rows acc w = (res, w') \<Longrightarrow>
   prefix (calls w) (calls w') \<and>
   (\<forall>c \<in> set (new_calls w w'). take 1 (argv c) = [''pandoc''] \<or> take 1 (argv c) = [''typst''])"
proof (induction rows arbitrary: i acc w)
  case Nil
  then show ?case by simp
next
  case (Cons r rs)
  obtain x w1 where cv: "convert_markdown_to_pdf e (merge_job j i r) w = (x, w1)"
    by (cases "convert_markdown_to_pdf e (merge_job j i r) w")
  note ce = convert_effect(1,2) [OF cv]
  from ce(2) have k: "\<forall>c \<in> set (new_calls w w1). take 1 (argv c) = [''pandoc''] \<or> take 1 (argv c) = [''typst'']"
    using cmd_heads by metis
  show ?case
  proof (cases "x = Inr True")
    case True
    with Cons.prems cv have "merge_rows e j (Suc i) rs (acc @ [temp_pdf j i]) w1 = (res, w')" by simp
    from Cons.IH [OF this] new_calls_trans [OF ce(1), of w'] k show ?thesis by auto
  next
    case False
    with Cons.prems cv have "calls w' = calls w1"
      by (cases x) (auto split: if_splits)
    then have "new_calls w w' = new_calls w w1" by (simp add: new_calls_def)
    with ce(1) k \<open>calls w' = calls w1\<close> show ?thesis by simp
  qed
qed

text \<open>
  C5. In merge mode, when the rows before some row were all converted and the conversion
  of that row fails, the batch ends there with exit status 1: the world it ends in is the
  world the failing conversion left, with the one line that names the row added to the
  error output. No later row is converted, no file is written after the failure, so no
  merged output is produced, and every process the batch has called is a pandoc or a
  typst call: the merge utilities are never invoked.
\<close>

theorem merge_mode_aborts:
  assumes "merge_rows e j 0 pre [] w = (Inr pdfs, w1)"
    and "convert_markdown_to_pdf e (merge_job j (length pre) r) w1 = (Inr False, w2)"
  shows "merge_mode e j (pre @ r # post) w = (1, print_err (FailedRow (length pre + 1)) w2) \<and>
         (\<forall>c \<in> set (new_calls w (snd (merge_mode e j (pre @ r # post) w))).
            take 1 (argv c) = [''pandoc''] \<or> take 1 (argv c) = [''typst''])"
proof -
  have m: "merge_rows e j 0 (pre @ r # post) [] w = (Inl 1, print_err (FailedRow (length pre + 1)) w2)"
    using assms by (simp add: merge_rows_append)
  then have 1: "merge_mode e j (pre @ r # post) w = (1, print_err (FailedRow (length pre + 1)) w2)"
    by (simp add: merge_mode_def)
  from merge_rows_calls [OF m] 1 show ?thesis by simp
qed

theorem merge_mode_aborts_witness:
  "fst (merge_mode (sample_env [''out_temp_1.temp.md'']) sample_job sample_rows sample_world) = 1 \<and>
   last (err (snd (merge_mode (sample_env [''out_temp_1.temp.md'']) sample_job sample_rows
     sample_world))) = FailedRow 2"
proof -
  let ?e = "sample_env [''out_temp_1.temp.md'']"
  let ?pre = "[[(''name'', Some ''Ann''), (''recipient'', Some ''Ann Lee'')]]"
  let ?r = "[(''name'', Some ''Bob''), (''recipient'', Some ''Bob'')]"
  let ?post = "[[(''name'', Some ''Cy''), (''recipient'', Some ''Cy'')]]"
  let ?w1 = "snd (merge_rows ?e sample_job 0 ?pre [] sample_world)"
  let ?w2 = "snd (convert_markdown_to_pdf ?e (merge_job sample_job (length ?pre) ?r) ?w1)"
  have "fst (merge_rows ?e sample_job 0 ?pre [] sample_world) = Inr [Path ''.'' ''out_temp_0.pdf'']"
    by code_simp
  then have a: "merge_rows ?e sample_job 0 ?pre [] sample_world = (Inr [Path ''.'' ''out_temp_0.pdf''], ?w1)"
    by (simp add: prod_eq_iff)
  have "fst (convert_markdown_to_pdf ?e (merge_job sample_job (length ?pre) ?r) ?w1) = Inr False"
    by code_simp
  then have b: "convert_markdown_to_pdf ?e (merge_job sample_job (length ?pre) ?r) ?w1 = (Inr False, ?w2)"
    by (simp add: prod_eq_iff)
  have r: "sample_rows = ?pre @ ?r # ?post" by (simp add: sample_rows_def)
  from merge_mode_aborts [OF a b, of ?post] show ?thesis unfolding r by simp
qed

text \<open>
  C6. The claim: per-row mode goes on after a row fails, reports each failure, and exits
  with status 0. The source does so as long as every row can be named, which the lemmas
  below prove. It does not on a CSV file with a line shorter than its header: the
  recipient of that row is \<^verbatim>\<open>None\<close>, \<^verbatim>\<open>row['recipient'].replace\<close> raises \<^verbatim>\<open>AttributeError\<close>,
  nothing catches it, and the process ends with status 1. Here the conversion of the
  first row fails and is reported, the second row is the short line, and the third row is
  never converted: the one process ever called is the pandoc call of the first row.
\<close>

theorem per_row_mode_short_line:
  "fst (per_row_mode (sample_env [''out_Bob.temp.md'']) sample_job ragged_rows sample_world) = 1 \<and>
   map argv (calls (snd (per_row_mode (sample_env [''out_Bob.temp.md'']) sample_job ragged_rows
     sample_world)))
   = [[''pandoc'', ''out_Bob.temp.md'', ''-t'', ''typst'', ''-o'', ''out_Bob.typ'']] \<and>
   err (snd (per_row_mode (sample_env [''out_Bob.temp.md'']) sample_job ragged_rows sample_world))
   = [ErrorDuringConversion, ToolStderr ''pandoc: error'',
      TemporaryFileSaved (Path ''.'' ''out_Bob.typ''), FailedToGenerate (Path ''.'' ''out_Bob.pdf'')] \<and>
   out (snd (per_row_mode (sample_env [''out_Bob.temp.md'']) sample_job ragged_rows sample_world))
   = [ConvertingToTypst ''doc.md'']"
  by code_simp

text \<open>
  On rows whose recipient, when present, is a string, per-row mode exits with status 0
  and reports every row once, as generated or as failed, and a row whose conversion fails
  is reported and followed by the rows after it.
\<close>

lemma row_output_named:
  "row_get r ''recipient'' \<noteq> Some None \<Longrightarrow> \<exists>p. row_output j i r = Inr p \<and> name p \<noteq> []"
  by (auto simp: row_output_def split: option.splits)

lemma per_row_loop_append:
  "per_row_loop e j i (pre @ rest) w =
     (case per_row_loop e j i pre w of
        (Some x, w1) \<Rightarrow> (Some x, w1)
      | (None, w1) \<Rightarrow> per_row_loop e j (i + length pre) rest w1)"
  by (induction pre arbitrary: i w) (auto split: prod.splits sum.splits option.splits)

lemma reports_report_row: "reports (report_row p b w) = Suc (reports w)"
  by (simp add: reports_def report_row_def)

lemma reports_convert:
  "convert_markdown_to_pdf e j w = (r, w') \<Longrightarrow> reports w' = reports w"
  by (simp add: reports_def convert_effect(3,4))

lemma per_row_loop_string_recipients:
  assumes "\<forall>r \<in> set rows. row_get r ''recipient'' \<noteq> Some None"
  shows "fst (per_row_loop e j i rows w) = None \<and>
         reports (snd (per_row_loop e j i rows w)) = reports w + length rows"
  using assms
proof (induction rows arbitrary: i w)
  case Nil
  then show ?case by simp
next
  case (Cons r rs)
  then have "row_get r ''recipient'' \<noteq> Some None" by simp
  from row_output_named [OF this] obtain p where p: "row_output j i r = Inr p" "name p \<noteq> []"
    by blast
  obtain x w1 where cv: "convert_markdown_to_pdf e (row_job j p r) w = (x, w1)"
    by (cases "convert_markdown_to_pdf e (row_job j p r) w")
  from p(2) have "name (output_pdf (row_job j p r)) \<noteq> []" by (simp add: row_job_def)
  from convert_effect(5) [OF cv this] obtain b where x: "x = Inr b" by blast
  from Cons.prems have "\<forall>r \<in> set rs. row_get r ''recipient'' \<noteq> Some None" by simp
  from Cons.IH [OF this, of "Suc i" "report_row p b w1"]
  show ?case using p(1) cv x reports_convert [OF cv] by (simp add: reports_report_row)
qed

lemma per_row_mode_string_recipients:
  assumes "\<forall>r \<in> set rows. row_get r ''recipient'' \<noteq> Some None"
  shows "fst (per_row_mode e j rows w) = 0 \<and>
         reports (snd (per_row_mode e j rows w)) = reports w + length rows"
  using per_row_loop_string_recipients [OF assms, of e j 0 w]
  by (auto simp: per_row_mode_def split: prod.splits option.splits)

lemma per_row_loop_failed_row:
  assumes "row_output j i r = Inr p"
    and "convert_markdown_to_pdf e (row_job j p r) w = (Inr False, w1)"
  shows "per_row_loop e j i (r # rs) w =
         per_row_loop e j (Suc i) rs (print_err (FailedToGenerate p) w1)"
  using assms by (simp add: report_row_def)
end
